theory Spec2Isabelle
  imports Complex_Main "HOL-Library.Char_ord" "HOL-Library.List_Lexorder"
    "HOL-Library.Product_Lexorder" "HOL-Library.Multiset" "HOL-Library.Word"
begin

section \<open>The ledger\<close>

text \<open>
  The pipeline of \<^verbatim>\<open>process_data.py\<close> reads a table of transactions and a table of
  users and derives its views from them. A data frame is the list of its rows, in row
  order. Floating point columns are idealised as exact rationals; the one non-number that
  the computations themselves can produce, NaN from the mean of an empty series, is a
  value of its own in \<open>pyfloat\<close>. Identifiers and labels are strings, ordered
  as Python orders \<^verbatim>\<open>str\<close> (lexicographically by character code). The coordinates that
  the script draws from the random generator for display are left out of the records;
  the random samples of rows are kept, driven by an explicit table of draws.

  Two things that \<^verbatim>\<open>read_csv\<close> decides are part of the ledger. A cell of the region
  columns and of the marketplace column may be missing (an empty field, or one of the
  texts that \<^verbatim>\<open>read_csv\<close> takes for a missing value, such as \<^verbatim>\<open>NA\<close>); it is
  \<open>None\<close> here and NaN in the data frame. A cell of the price column is an integer or a
  float literal; the column is of type int64 when every cell is an integer, and a
  float column otherwise. The cells of the other columns are taken to be present.
\<close>

text \<open>
  The texts that \<^verbatim>\<open>read_csv\<close>, called as the script calls it, takes for a missing value,
  and the cell it makes of a field of a text column.
\<close>

definition na_values :: "string list" where
  "na_values =
     ['''', ''#N/A'', ''#N/A N/A'', ''#NA'', ''-1.#IND'', ''-1.#QNAN'', ''-NaN'', ''-nan'',
      ''1.#IND'', ''1.#QNAN'', ''<NA>'', ''N/A'', ''NA'', ''NULL'', ''NaN'', ''None'',
      ''n/a'', ''nan'', ''null'']"

definition read_cell :: "string \<Rightarrow> string option" where
  "read_cell field = (if field \<in> set na_values then None else Some field)"

text \<open>
  A cell of a numeric column as \<^verbatim>\<open>read_csv\<close> parses it, the value it stands for, and its
  value in an int64 column.
\<close>

datatype num_cell = IntCell "64 word" | FloatCell rat

fun cell_value :: "num_cell \<Rightarrow> rat" where
  "cell_value (IntCell w) = of_int (sint w)"
| "cell_value (FloatCell x) = x"

fun is_int_cell :: "num_cell \<Rightarrow> bool" where
  "is_int_cell (IntCell w) = True"
| "is_int_cell (FloatCell x) = False"

fun int64_of :: "num_cell \<Rightarrow> 64 word" where
  "int64_of (IntCell w) = w"
| "int64_of (FloatCell x) = 0"
  \<comment> \<open>not reached: an int64 column has no float cell\<close>

type_synonym timestamp = "nat \<times> nat \<times> nat \<times> nat \<times> nat \<times> nat"
  \<comment> \<open>year, month, day, hour, minute, second\<close>

definition dt_day :: "timestamp \<Rightarrow> nat" where
  "dt_day ts = fst (snd (snd ts))"

record transaction =
  transaction_id :: string
  timestamp :: timestamp
  buyer_id :: string
  seller_id :: string
  category :: string
  price :: num_cell
  price_z :: rat
  marketplace :: "string option"
  buyer_region :: "string option"
  seller_region :: "string option"
  anomaly_label :: string
  anomaly_notes :: string

record user =
  user_id :: string
  region :: "string option"
  kyc_verified :: "bool option"

datatype pyfloat = NaN | Float rat

datatype error = ValueError | KeyError string | ZeroDivisionError

text \<open>
  The price of a row as a number, and the type of the price column of a ledger. Every
  frame that the script takes a price sum of is a selection of rows of the ledger and
  has the ledger's column type.
\<close>

definition price_value :: "transaction \<Rightarrow> rat" where
  "price_value t = cell_value (price t)"

definition price_int64 :: "transaction list \<Rightarrow> bool" where
  "price_int64 txns = list_all (\<lambda>t. is_int_cell (price t)) txns"

text \<open>\<^verbatim>\<open>transactions['is_anomaly'] = transactions['anomaly_label'] != 'normal'\<close>\<close>

definition is_anomaly :: "transaction \<Rightarrow> bool" where
  "is_anomaly t = (anomaly_label t \<noteq> ''normal'')"

section \<open>The pandas operations the script uses\<close>

text \<open>\<^verbatim>\<open>Series.unique()\<close>: the distinct values in order of first appearance.\<close>

fun unique :: "'a list \<Rightarrow> 'a list" where
  "unique [] = []"
| "unique (x # xs) = x # unique (filter (\<lambda>y. y \<noteq> x) xs)"

text \<open>
  \<^verbatim>\<open>Series.value_counts()\<close>: the distinct values with their number of occurrences, most
  frequent first. pandas builds the table in order of first appearance and sorts it by
  descending count; values of equal count are kept here in order of first appearance.
\<close>

definition value_counts :: "'a list \<Rightarrow> ('a \<times> nat) list" where
  "value_counts xs =
     sort_key (\<lambda>p. - int (snd p)) (map (\<lambda>v. (v, count_list xs v)) (unique xs))"

text \<open>\<^verbatim>\<open>.head(n).index\<close> of a table of counts.\<close>

definition head_index :: "nat \<Rightarrow> ('a \<times> nat) list \<Rightarrow> 'a list" where
  "head_index n vc = map fst (take n vc)"

text \<open>
  \<^verbatim>\<open>DataFrame.groupby(keys)\<close>: one group per distinct key, the groups in ascending key
  order, each holding its rows in row order. A group exists only if it has a row.
\<close>

definition groupby :: "('r \<Rightarrow> 'k::linorder) \<Rightarrow> 'r list \<Rightarrow> ('k \<times> 'r list) list" where
  "groupby key rows =
     map (\<lambda>k. (k, filter (\<lambda>r. key r = k) rows)) (sort (remdups (map key rows)))"

text \<open>
  The comparison \<^verbatim>\<open>column == value\<close> on a cell that may be missing: NaN equals nothing,
  not even NaN.
\<close>

definition eq_cell :: "'a option \<Rightarrow> 'a option \<Rightarrow> bool" where
  "eq_cell c v = (c \<noteq> None \<and> c = v)"

text \<open>
  A key column with missing cells: \<^verbatim>\<open>groupby\<close> leaves the rows with a missing key out
  of every group, without a word.
\<close>

definition groupby_dropna :: "('r \<Rightarrow> 'k::linorder option) \<Rightarrow> 'r list \<Rightarrow> ('k \<times> 'r list) list" where
  "groupby_dropna key rows =
     map (\<lambda>k. (k, filter (\<lambda>r. key r = Some k) rows))
       (sort (remdups (List.map_filter key rows)))"

text \<open>
  \<^verbatim>\<open>Series.sum()\<close> of the price column, also as the \<^verbatim>\<open>'sum'\<close> of a group. In an int64
  column the sum is taken in 64-bit integers and wraps around; the result is then
  converted to a float. In a float column the integer cells have become floats.
\<close>

definition price_sum :: "bool \<Rightarrow> transaction list \<Rightarrow> rat" where
  "price_sum int64 rows =
     (if int64 then of_int (sint (sum_list (map (\<lambda>t. int64_of (price t)) rows)))
      else sum_list (map price_value rows))"

text \<open>\<^verbatim>\<open>Series.sum()\<close> of booleans and \<^verbatim>\<open>Series.mean()\<close>; the mean of an empty series is NaN.\<close>

definition mean :: "rat list \<Rightarrow> pyfloat" where
  "mean xs = (if xs = [] then NaN else Float (sum_list xs / of_nat (length xs)))"

definition bool_sum :: "bool list \<Rightarrow> nat" where
  "bool_sum bs = length (filter (\<lambda>b. b) bs)"

definition bool_mean :: "bool list \<Rightarrow> pyfloat" where
  "bool_mean bs = (if bs = [] then NaN else Float (of_nat (bool_sum bs) / of_nat (length bs)))"

text \<open>
  \<^verbatim>\<open>Series.mode()\<close>: the values of highest frequency, returned sorted in ascending order.
\<close>

definition mode :: "'a::linorder list \<Rightarrow> 'a list" where
  "mode xs =
     (let top = fold max (map (count_list xs) xs) 0
      in sort (filter (\<lambda>v. count_list xs v = top) (unique xs)))"

text \<open>Reading position 0 of a series raises \<^verbatim>\<open>KeyError\<close> when the series is empty.\<close>

definition at0 :: "string list \<Rightarrow> error + string" where
  "at0 xs = (case xs of [] \<Rightarrow> Inl (KeyError ''0'') | x # _ \<Rightarrow> Inr x)"

text \<open>
  \<^verbatim>\<open>DataFrame.sample(n=n)\<close> draws \<open>n\<close> distinct rows without replacement and raises
  \<^verbatim>\<open>ValueError\<close> when \<open>n\<close> exceeds the number of rows. The generator is the table
  \<open>rnd\<close>: with \<open>k\<close> rows left it picks row \<open>rnd k mod k\<close> of them.
\<close>

function shuffle :: "(nat \<Rightarrow> nat) \<Rightarrow> 'a list \<Rightarrow> 'a list" where
  "shuffle rnd xs =
     (if xs = [] then []
      else let i = rnd (length xs) mod length xs
           in xs ! i # shuffle rnd (take i xs @ drop (Suc i) xs))"
  by pat_completeness auto
termination
proof (relation "measure (\<lambda>(rnd, xs). length xs)")
  fix rnd :: "nat \<Rightarrow> nat" and xs :: "'a list" and i
  assume "xs \<noteq> []" and "i = rnd (length xs) mod length xs"
  then have "i < length xs" by simp
  then show "((rnd, take i xs @ drop (Suc i) xs), (rnd, xs)) \<in> measure (\<lambda>(rnd, xs). length xs)"
    by simp
qed simp

declare shuffle.simps [simp del]

definition sample :: "nat \<Rightarrow> (nat \<Rightarrow> nat) \<Rightarrow> 'a list \<Rightarrow> error + 'a list" where
  "sample n rnd rows = (if length rows < n then Inl ValueError else Inr (take n (shuffle rnd rows)))"

text \<open>
  \<^verbatim>\<open>DataFrame.nlargest(n, column)\<close>: the \<open>n\<close> rows of largest value, in descending order
  of the value, rows of equal value in row order.
\<close>

definition nlargest :: "nat \<Rightarrow> ('r \<Rightarrow> rat) \<Rightarrow> 'r list \<Rightarrow> 'r list" where
  "nlargest n col rows = take n (sort_key (\<lambda>r. - col r) rows)"

text \<open>Python's \<^verbatim>\<open>min(x, 1.0)\<close> on a float that may be NaN: NaN compares false, so it stays.\<close>

definition min_one :: "pyfloat \<Rightarrow> pyfloat" where
  "min_one a = (case a of NaN \<Rightarrow> NaN | Float x \<Rightarrow> Float (min x 1))"

definition fdiv :: "pyfloat \<Rightarrow> rat \<Rightarrow> pyfloat" where
  "fdiv a d = (case a of NaN \<Rightarrow> NaN | Float x \<Rightarrow> Float (x / d))"

text \<open>Python's \<^verbatim>\<open>a / b\<close> on integers.\<close>

definition int_div :: "nat \<Rightarrow> nat \<Rightarrow> error + rat" where
  "int_div a b = (if b = 0 then Inl ZeroDivisionError else Inr (of_nat a / of_nat b))"

text \<open>Running a fallible loop body over a list: the first exception ends the loop.\<close>

fun traverse :: "('a \<Rightarrow> error + 'b) \<Rightarrow> 'a list \<Rightarrow> error + 'b list" where
  "traverse f [] = Inr []"
| "traverse f (x # xs) =
     (case f x of
        Inl e \<Rightarrow> Inl e
      | Inr y \<Rightarrow> (case traverse f xs of Inl e \<Rightarrow> Inl e | Inr ys \<Rightarrow> Inr (y # ys)))"

definition in_unit :: "pyfloat \<Rightarrow> bool" where
  "in_unit a = (case a of NaN \<Rightarrow> False | Float x \<Rightarrow> 0 \<le> x \<and> x \<le> 1)"

section \<open>View 3: the particle field\<close>

record particle =
  p_z :: rat
  p_size :: rat
  p_intensity :: rat
  p_is_flare :: bool
  p_category :: string
  p_price :: rat
  p_z_score :: rat
  p_anomaly_type :: string

record category_summary =
  cs_name :: string
  cs_center_x :: rat
  cs_total :: nat
  cs_anomalies :: nat

record particle_view =
  particles :: "particle list"
  pv_categories :: "category_summary list"
  total_particles :: nat
  flare_count :: nat

definition high_intensity :: "transaction list \<Rightarrow> transaction list" where
  "high_intensity txns = filter (\<lambda>t. \<bar>price_z t\<bar> > 2) txns"

definition remainder :: "transaction list \<Rightarrow> transaction list" where
  "remainder txns = filter (\<lambda>t. \<bar>price_z t\<bar> \<le> 2) txns"

text \<open>
  \<^verbatim>\<open>normal_sample = transactions[transactions['price_z'].abs() <= 2]
      .sample(n=min(2000, len(transactions)))\<close>
\<close>

definition normal_sample :: "(nat \<Rightarrow> nat) \<Rightarrow> transaction list \<Rightarrow> error + transaction list" where
  "normal_sample rnd txns = sample (min 2000 (length txns)) rnd (remainder txns)"

definition mk_particle :: "transaction \<Rightarrow> particle" where
  "mk_particle txn =
     (let deviation_abs = \<bar>price_z txn\<bar>
      in \<lparr>p_z = price_z txn * 3,
          p_size = 2 + deviation_abs * 2,
          p_intensity = min (deviation_abs / 4) 1,
          p_is_flare = (deviation_abs > 2),
          p_category = category txn,
          p_price = price_value txn,
          p_z_score = price_z txn,
          p_anomaly_type = anomaly_label txn\<rparr>)"

definition particle_data :: "string list \<Rightarrow> transaction list \<Rightarrow> particle list" where
  "particle_data categories particle_txns =
     concat (map (\<lambda>c. map mk_particle (filter (\<lambda>t. category t = c) particle_txns)) categories)"

definition particle_export :: "(nat \<Rightarrow> nat) \<Rightarrow> transaction list \<Rightarrow> error + particle_view" where
  "particle_export rnd txns =
     (let categories = unique (map category txns)
      in case normal_sample rnd txns of
           Inl e \<Rightarrow> Inl e
         | Inr smp \<Rightarrow>
             (let pd = particle_data categories (high_intensity txns @ smp)
              in Inr \<lparr>particles = pd,
                      pv_categories =
                        map (\<lambda>(idx, cat).
                               \<lparr>cs_name = cat, cs_center_x = of_nat idx * 30,
                                cs_total = length (filter (\<lambda>t. category t = cat) txns),
                                cs_anomalies =
                                  length (filter (\<lambda>t. category t = cat) (filter is_anomaly txns))\<rparr>)
                            (enumerate 0 categories),
                      total_particles = length pd,
                      flare_count = length (filter p_is_flare pd)\<rparr>))"

section \<open>View 1: the network graph\<close>

record node =
  n_id :: string
  n_tx_count :: nat
  n_anomaly_count :: nat
  n_total_value :: rat
  n_region :: string
  n_kyc :: bool

record edge_group =
  g_buyer_id :: string
  g_seller_id :: string
  g_transaction_id :: nat
  g_price :: rat
  g_price_z :: pyfloat
  g_is_anomaly :: nat
  g_anomaly_label :: string

record edge =
  e_source :: string
  e_target :: string
  e_tx_count :: nat
  e_total_value :: rat
  e_avg_price_z :: pyfloat
  e_anomaly_count :: nat
  e_anomaly_type :: string
  e_intensity :: pyfloat

record network_view =
  nodes :: "node list"
  edges :: "edge list"
  total_nodes :: nat
  total_edges :: nat

definition top_buyers :: "transaction list \<Rightarrow> string list" where
  "top_buyers txns = head_index 80 (value_counts (map buyer_id txns))"

definition top_sellers :: "transaction list \<Rightarrow> string list" where
  "top_sellers txns = head_index 80 (value_counts (map seller_id txns))"

text \<open>
  \<^verbatim>\<open>active_users = list(set(top_buyers) | set(top_sellers))\<close>. Python leaves the order
  of the resulting list open; the model lists the buyers first.
\<close>

definition active_users :: "transaction list \<Rightarrow> string list" where
  "active_users txns = unique (top_buyers txns @ top_sellers txns)"

definition mk_node :: "user list \<Rightarrow> transaction list \<Rightarrow> string \<Rightarrow> node" where
  "mk_node users txns uid =
     (let user_txns = filter (\<lambda>t. buyer_id t = uid \<or> seller_id t = uid) txns;
          user_info = filter (\<lambda>u. user_id u = uid) users
      in \<lparr>n_id = uid,
          n_tx_count = length user_txns,
          n_anomaly_count = bool_sum (map is_anomaly user_txns),
          n_total_value = price_sum (price_int64 txns) user_txns,
          n_region = (case user_info of
                        [] \<Rightarrow> ''Unknown''
                      | u # _ \<Rightarrow> (case region u of None \<Rightarrow> ''Unknown'' | Some r \<Rightarrow> r)),
          n_kyc = (case user_info of
                     [] \<Rightarrow> False
                   | u # _ \<Rightarrow> (case kyc_verified u of None \<Rightarrow> False | Some b \<Rightarrow> b))\<rparr>)"

definition node_data :: "user list \<Rightarrow> transaction list \<Rightarrow> node list" where
  "node_data users txns = map (mk_node users txns) (active_users txns)"

definition network_txns :: "transaction list \<Rightarrow> transaction list" where
  "network_txns txns =
     filter (\<lambda>t. buyer_id t \<in> set (active_users txns) \<and> seller_id t \<in> set (active_users txns)) txns"

text \<open>\<^verbatim>\<open>lambda x: x.mode()[0] if len(x) > 0 else 'normal'\<close>\<close>

definition agg_label :: "string list \<Rightarrow> error + string" where
  "agg_label x = (if length x > 0 then at0 (mode x) else Inr ''normal'')"

definition agg_edge :: "bool \<Rightarrow> (string \<times> string) \<times> transaction list \<Rightarrow> error + edge_group" where
  "agg_edge int64 kg =
     (case agg_label (map anomaly_label (snd kg)) of
        Inl e \<Rightarrow> Inl e
      | Inr lab \<Rightarrow>
          Inr \<lparr>g_buyer_id = fst (fst kg),
               g_seller_id = snd (fst kg),
               g_transaction_id = length (snd kg),
               g_price = price_sum int64 (snd kg),
               g_price_z = mean (map (\<lambda>t. \<bar>price_z t\<bar>) (snd kg)),
               g_is_anomaly = bool_sum (map is_anomaly (snd kg)),
               g_anomaly_label = lab\<rparr>)"

definition edge_groups :: "transaction list \<Rightarrow> error + edge_group list" where
  "edge_groups txns =
     traverse (agg_edge (price_int64 txns))
       (groupby (\<lambda>t. (buyer_id t, seller_id t)) (network_txns txns))"

definition mk_edge :: "edge_group \<Rightarrow> edge" where
  "mk_edge row =
     \<lparr>e_source = g_buyer_id row,
      e_target = g_seller_id row,
      e_tx_count = g_transaction_id row,
      e_total_value = g_price row,
      e_avg_price_z = g_price_z row,
      e_anomaly_count = g_is_anomaly row,
      e_anomaly_type = g_anomaly_label row,
      e_intensity = min_one (fdiv (g_price_z row) 2)\<rparr>"

definition edge_data :: "transaction list \<Rightarrow> error + edge list" where
  "edge_data txns =
     (case edge_groups txns of Inl e \<Rightarrow> Inl e | Inr rows \<Rightarrow> Inr (map mk_edge rows))"

definition network_export :: "user list \<Rightarrow> transaction list \<Rightarrow> error + network_view" where
  "network_export users txns =
     (let nd = node_data users txns
      in case edge_data txns of
           Inl e \<Rightarrow> Inl e
         | Inr ed \<Rightarrow>
             Inr \<lparr>nodes = nd, edges = ed, total_nodes = length nd, total_edges = length ed\<rparr>)"

section \<open>View 2: the anomaly timeline\<close>

record daily_count =
  d_day :: nat
  d_count :: nat
  d_value :: rat
  d_intensity :: pyfloat

record temporal =
  t_type :: string
  t_total_count :: nat
  t_avg_price :: pyfloat
  t_avg_z_score :: pyfloat
  t_daily_counts :: "daily_count list"

record timeline_view =
  anomaly_types :: "temporal list"
  tl_start :: "timestamp option"
  tl_end :: "timestamp option"

definition anomalies :: "transaction list \<Rightarrow> transaction list" where
  "anomalies txns = filter is_anomaly txns"

text \<open>The earliest and the latest timestamp of a column; an empty column has neither.\<close>

definition ts_min :: "timestamp list \<Rightarrow> timestamp option" where
  "ts_min xs = (case xs of [] \<Rightarrow> None | x # r \<Rightarrow> Some (fold min r x))"

definition ts_max :: "timestamp list \<Rightarrow> timestamp option" where
  "ts_max xs = (case xs of [] \<Rightarrow> None | x # r \<Rightarrow> Some (fold max r x))"

definition mk_temporal :: "bool \<Rightarrow> transaction list \<Rightarrow> string \<Rightarrow> temporal" where
  "mk_temporal int64 anoms anomaly_type =
     (let type_data = filter (\<lambda>t. anomaly_label t = anomaly_type) anoms;
          daily = groupby (\<lambda>t. dt_day (timestamp t)) type_data
      in \<lparr>t_type = anomaly_type,
          t_total_count = length type_data,
          t_avg_price = mean (map price_value type_data),
          t_avg_z_score = mean (map (\<lambda>t. \<bar>price_z t\<bar>) type_data),
          t_daily_counts =
            map (\<lambda>row. \<lparr>d_day = fst row,
                        d_count = length (snd row),
                        d_value = price_sum int64 (snd row),
                        d_intensity = mean (map (\<lambda>t. \<bar>price_z t\<bar>) (snd row))\<rparr>) daily\<rparr>)"

definition temporal_data :: "transaction list \<Rightarrow> temporal list" where
  "temporal_data txns =
     map (mk_temporal (price_int64 txns) (anomalies txns))
       (unique (map anomaly_label (anomalies txns)))"

definition timeline_export :: "transaction list \<Rightarrow> timeline_view" where
  "timeline_export txns =
     \<lparr>anomaly_types = temporal_data txns,
      tl_start = ts_min (map timestamp txns),
      tl_end = ts_max (map timestamp txns)\<rparr>"

section \<open>View 4: the geographic flows\<close>

record coords =
  lat :: int
  lon :: int
  name :: string

definition region_coords :: "(string \<times> coords) list" where
  "region_coords =
     [(''EU'', \<lparr>lat = 50, lon = 10, name = ''Europe''\<rparr>),
      (''SEA'', \<lparr>lat = 10, lon = 105, name = ''Southeast Asia''\<rparr>),
      (''EAST_ASIA'', \<lparr>lat = 35, lon = 120, name = ''East Asia''\<rparr>),
      (''OCE'', \<lparr>lat = - 25, lon = 135, name = ''Oceania''\<rparr>),
      (''LATAM'', \<lparr>lat = - 10, lon = - 60, name = ''Latin America''\<rparr>)]"

text \<open>\<^verbatim>\<open>region_coords[code]\<close>: a dictionary subscript, which raises on a missing key.\<close>

definition region_lookup :: "string \<Rightarrow> error + coords" where
  "region_lookup code =
     (case map_of region_coords code of None \<Rightarrow> Inl (KeyError code) | Some c \<Rightarrow> Inr c)"

record flow_group =
  f_buyer_region :: string
  f_seller_region :: string
  f_marketplace :: string
  f_transaction_id :: nat
  f_price :: rat
  f_is_anomaly :: nat

record flow =
  fl_source :: string
  fl_target :: string
  fl_source_coords :: coords
  fl_target_coords :: coords
  fl_marketplace :: string
  fl_tx_count :: nat
  fl_total_value :: rat
  fl_anomaly_count :: nat
  fl_anomaly_rate :: rat
  fl_intensity :: rat

record region_entry =
  r_code :: string
  r_coords :: coords
  r_total_transactions :: nat

record geo_view =
  gv_flows :: "flow list"
  gv_regions :: "region_entry list"

definition agg_flow :: "bool \<Rightarrow> (string \<times> string \<times> string) \<times> transaction list \<Rightarrow> flow_group" where
  "agg_flow int64 kg =
     \<lparr>f_buyer_region = fst (fst kg),
      f_seller_region = fst (snd (fst kg)),
      f_marketplace = snd (snd (fst kg)),
      f_transaction_id = length (snd kg),
      f_price = price_sum int64 (snd kg),
      f_is_anomaly = bool_sum (map is_anomaly (snd kg))\<rparr>"

text \<open>
  The key of a row in \<^verbatim>\<open>groupby(['buyer_region', 'seller_region', 'marketplace'])\<close>: it
  is missing as soon as one of the three cells is.
\<close>

definition flow_key :: "transaction \<Rightarrow> (string \<times> string \<times> string) option" where
  "flow_key t =
     (case buyer_region t of
        None \<Rightarrow> None
      | Some b \<Rightarrow>
          (case seller_region t of
             None \<Rightarrow> None
           | Some s \<Rightarrow> (case marketplace t of None \<Rightarrow> None | Some m \<Rightarrow> Some (b, s, m))))"

definition flows :: "transaction list \<Rightarrow> flow_group list" where
  "flows txns =
     filter (\<lambda>row. f_buyer_region row \<noteq> f_seller_region row)
       (map (agg_flow (price_int64 txns)) (groupby_dropna flow_key txns))"

text \<open>
  The body of the loop over the flows. The dictionary literal evaluates its entries in
  order: the buyer's coordinates, the seller's coordinates, then the two quotients.
\<close>

definition mk_flow :: "flow_group \<Rightarrow> error + flow" where
  "mk_flow row =
     (case region_lookup (f_buyer_region row) of
        Inl e \<Rightarrow> Inl e
      | Inr sc \<Rightarrow>
     (case region_lookup (f_seller_region row) of
        Inl e \<Rightarrow> Inl e
      | Inr tc \<Rightarrow>
     (case int_div (f_is_anomaly row) (f_transaction_id row) of
        Inl e \<Rightarrow> Inl e
      | Inr rate \<Rightarrow>
          Inr \<lparr>fl_source = f_buyer_region row,
               fl_target = f_seller_region row,
               fl_source_coords = sc,
               fl_target_coords = tc,
               fl_marketplace = f_marketplace row,
               fl_tx_count = f_transaction_id row,
               fl_total_value = f_price row,
               fl_anomaly_count = f_is_anomaly row,
               fl_anomaly_rate = rate,
               fl_intensity = min rate 1\<rparr>)))"

definition flow_data :: "transaction list \<Rightarrow> error + flow list" where
  "flow_data txns = traverse mk_flow (flows txns)"

definition geo_export :: "transaction list \<Rightarrow> error + geo_view" where
  "geo_export txns =
     (case flow_data txns of
        Inl e \<Rightarrow> Inl e
      | Inr fd \<Rightarrow>
          Inr \<lparr>gv_flows = fd,
               gv_regions =
                 map (\<lambda>(code, c).
                        \<lparr>r_code = code, r_coords = c,
                         r_total_transactions =
                           length (filter (\<lambda>t. buyer_region t = Some code \<or>
                                               seller_region t = Some code) txns)\<rparr>)
                     region_coords\<rparr>)"

section \<open>View 5: the wash trade ring\<close>

record ring_node =
  rn_id :: string
  rn_ring_position :: nat
  rn_wash_trade_count :: nat

record ring_edge =
  re_source :: string
  re_target :: string
  re_is_wash_trade :: bool
  re_price :: rat
  re_timestamp :: timestamp

record ring_view =
  rv_nodes :: "ring_node list"
  rv_edges :: "ring_edge list"
  total_wash_trades :: nat
  ring_size :: nat

definition wash_trades :: "transaction list \<Rightarrow> transaction list" where
  "wash_trades txns = filter (\<lambda>t. anomaly_label t = ''wash_trade_ring'') txns"

definition ring_users :: "transaction list \<Rightarrow> string list" where
  "ring_users txns =
     head_index 20
       (value_counts (map buyer_id (wash_trades txns) @ map seller_id (wash_trades txns)))"

definition ring_txns :: "transaction list \<Rightarrow> transaction list" where
  "ring_txns txns =
     filter (\<lambda>t. buyer_id t \<in> set (ring_users txns) \<and> seller_id t \<in> set (ring_users txns)) txns"

definition ring_nodes :: "transaction list \<Rightarrow> ring_node list" where
  "ring_nodes txns =
     map (\<lambda>(idx, uid).
            \<lparr>rn_id = uid, rn_ring_position = idx,
             rn_wash_trade_count =
               length (filter (\<lambda>t. buyer_id t = uid \<or> seller_id t = uid) (wash_trades txns))\<rparr>)
         (enumerate 0 (ring_users txns))"

definition mk_ring_edge :: "transaction \<Rightarrow> ring_edge" where
  "mk_ring_edge txn =
     \<lparr>re_source = buyer_id txn,
      re_target = seller_id txn,
      re_is_wash_trade = (anomaly_label txn = ''wash_trade_ring''),
      re_price = price_value txn,
      re_timestamp = timestamp txn\<rparr>"

text \<open>The loop over \<^verbatim>\<open>ring_txns\<close>, which tests both endpoints again before appending.\<close>

fun ring_edges_loop :: "string list \<Rightarrow> transaction list \<Rightarrow> ring_edge list" where
  "ring_edges_loop ru [] = []"
| "ring_edges_loop ru (txn # rest) =
     (if buyer_id txn \<in> set ru \<and> seller_id txn \<in> set ru
      then mk_ring_edge txn # ring_edges_loop ru rest
      else ring_edges_loop ru rest)"

definition ring_edges :: "transaction list \<Rightarrow> ring_edge list" where
  "ring_edges txns = ring_edges_loop (ring_users txns) (ring_txns txns)"

definition ring_export :: "transaction list \<Rightarrow> ring_view" where
  "ring_export txns =
     \<lparr>rv_nodes = ring_nodes txns,
      rv_edges = take 200 (ring_edges txns),
      total_wash_trades = length (wash_trades txns),
      ring_size = length (ring_users txns)\<rparr>"

section \<open>View 6: the marketplace clusters\<close>

record market_point =
  mp_is_anomaly :: bool
  mp_price :: rat
  mp_category :: string
  mp_anomaly_type :: string

record market_stats =
  ms_total_transactions :: nat
  ms_total_value :: rat
  ms_anomaly_count :: nat
  ms_anomaly_rate :: pyfloat

record marketplace_entry =
  m_name :: string
  m_center :: "int \<times> int \<times> int"
  m_points :: "market_point list"
  m_stats :: market_stats

record marketplace_view =
  marketplaces :: "marketplace_entry list"
  total_points :: nat

definition marketplace_centers :: "(string \<times> int \<times> int \<times> int) list" where
  "marketplace_centers =
     [(''Prime'', (- 40, 0, 0)), (''Shadow'', (0, 0, 0)), (''Arcade'', (40, 0, 0))]"

definition mk_market_point :: "transaction \<Rightarrow> market_point" where
  "mk_market_point txn =
     \<lparr>mp_is_anomaly = is_anomaly txn,
      mp_price = price_value txn,
      mp_category = category txn,
      mp_anomaly_type = anomaly_label txn\<rparr>"

text \<open>
  The body of the loop over the fixed marketplaces; \<open>rnd\<close> holds the draws of this
  marketplace's sample.
\<close>

definition mk_marketplace ::
  "transaction list \<Rightarrow> (nat \<Rightarrow> nat) \<times> string \<times> int \<times> int \<times> int \<Rightarrow> error + marketplace_entry" where
  "mk_marketplace txns arg =
     (let rnd = fst arg; market = fst (snd arg); center = snd (snd arg);
          market_stats = filter (\<lambda>t. marketplace t = Some market) txns
      in case sample (min 1000 (length market_stats)) rnd market_stats of
           Inl e \<Rightarrow> Inl e
         | Inr market_txns \<Rightarrow>
             Inr \<lparr>m_name = market,
                  m_center = center,
                  m_points = map mk_market_point market_txns,
                  m_stats =
                    \<lparr>ms_total_transactions = length market_stats,
                     ms_total_value = price_sum (price_int64 txns) market_stats,
                     ms_anomaly_count = bool_sum (map is_anomaly market_stats),
                     ms_anomaly_rate = bool_mean (map is_anomaly market_stats)\<rparr>\<rparr>)"

definition marketplace_data :: "(nat \<Rightarrow> nat \<Rightarrow> nat) \<Rightarrow> transaction list \<Rightarrow> error + marketplace_entry list" where
  "marketplace_data rnd txns =
     traverse (mk_marketplace txns)
       (map (\<lambda>(i, mc). (rnd i, mc)) (enumerate 1 marketplace_centers))"

definition marketplace_export :: "(nat \<Rightarrow> nat \<Rightarrow> nat) \<Rightarrow> transaction list \<Rightarrow> error + marketplace_view" where
  "marketplace_export rnd txns =
     (case marketplace_data rnd txns of
        Inl e \<Rightarrow> Inl e
      | Inr md \<Rightarrow>
          Inr \<lparr>marketplaces = md, total_points = sum_list (map (\<lambda>m. length (m_points m)) md)\<rparr>)"

section \<open>View 7: the statistics summary\<close>

record overview =
  ov_total_transactions :: nat
  ov_total_anomalies :: nat
  ov_detection_rate :: pyfloat
  ov_total_volume :: rat
  ov_start :: "timestamp option"
  ov_end :: "timestamp option"

record breakdown_entry =
  b_type :: string
  b_count :: nat
  b_avg_price :: pyfloat
  b_avg_z_score :: pyfloat

record marketplace_summary =
  s_name :: "string option"
  s_transactions :: nat
  s_anomaly_rate :: pyfloat
  s_total_value :: rat

record category_entry =
  c_total :: nat
  c_anomalies :: nat
  c_anomaly_rate :: pyfloat

record stats_view =
  sv_overview :: overview
  sv_anomaly_breakdown :: "breakdown_entry list"
  sv_marketplaces :: "marketplace_summary list"
  sv_categories :: "(string \<times> category_entry) list"

definition stats_export :: "transaction list \<Rightarrow> stats_view" where
  "stats_export txns =
     \<lparr>sv_overview =
        \<lparr>ov_total_transactions = length txns,
         ov_total_anomalies = bool_sum (map is_anomaly txns),
         ov_detection_rate = bool_mean (map is_anomaly txns),
         ov_total_volume = price_sum (price_int64 txns) txns,
         ov_start = ts_min (map timestamp txns),
         ov_end = ts_max (map timestamp txns)\<rparr>,
      sv_anomaly_breakdown =
        map (\<lambda>anom_type.
               \<lparr>b_type = anom_type,
                b_count = length (filter (\<lambda>t. anomaly_label t = anom_type) txns),
                b_avg_price =
                  mean (map price_value (filter (\<lambda>t. anomaly_label t = anom_type) txns)),
                b_avg_z_score =
                  mean (map (\<lambda>t. \<bar>price_z t\<bar>) (filter (\<lambda>t. anomaly_label t = anom_type) txns))\<rparr>)
            (unique (map anomaly_label (filter is_anomaly txns))),
      sv_marketplaces =
        map (\<lambda>m.
               \<lparr>s_name = m,
                s_transactions = length (filter (\<lambda>t. eq_cell (marketplace t) m) txns),
                s_anomaly_rate =
                  bool_mean (map is_anomaly (filter (\<lambda>t. eq_cell (marketplace t) m) txns)),
                s_total_value =
                  price_sum (price_int64 txns) (filter (\<lambda>t. eq_cell (marketplace t) m) txns)\<rparr>)
            (unique (map marketplace txns)),
      sv_categories =
        map (\<lambda>cat.
               (cat,
                \<lparr>c_total = length (filter (\<lambda>t. category t = cat) txns),
                 c_anomalies = bool_sum (map is_anomaly (filter (\<lambda>t. category t = cat) txns)),
                 c_anomaly_rate = bool_mean (map is_anomaly (filter (\<lambda>t. category t = cat) txns))\<rparr>))
            (unique (map category txns))\<rparr>"

section \<open>The dashboard exports\<close>

record transaction_row =
  tr_transaction_id :: string
  tr_timestamp :: timestamp
  tr_buyer_id :: string
  tr_seller_id :: string
  tr_category :: string
  tr_price :: rat
  tr_marketplace :: "string option"
  tr_is_anomaly :: bool
  tr_anomaly_label :: string

record anomaly_row =
  ar_transaction_id :: string
  ar_timestamp :: timestamp
  ar_category :: string
  ar_price :: rat
  ar_price_z :: rat
  ar_anomaly_label :: string
  ar_anomaly_notes :: string

definition mk_transaction_row :: "transaction \<Rightarrow> transaction_row" where
  "mk_transaction_row t =
     \<lparr>tr_transaction_id = transaction_id t, tr_timestamp = timestamp t,
      tr_buyer_id = buyer_id t, tr_seller_id = seller_id t, tr_category = category t,
      tr_price = price_value t, tr_marketplace = marketplace t, tr_is_anomaly = is_anomaly t,
      tr_anomaly_label = anomaly_label t\<rparr>"

definition transactions_export :: "(nat \<Rightarrow> nat) \<Rightarrow> transaction list \<Rightarrow> error + transaction_row list" where
  "transactions_export rnd txns =
     (case sample (min 500 (length txns)) rnd txns of
        Inl e \<Rightarrow> Inl e
      | Inr sample_transactions \<Rightarrow> Inr (map mk_transaction_row sample_transactions))"

text \<open>
  \<^verbatim>\<open>anomalies['price_z_abs'] = anomalies['price_z'].abs()
  top_anomalies = anomalies.nlargest(100, 'price_z_abs')\<close>
\<close>

definition top_anomalies :: "transaction list \<Rightarrow> transaction list" where
  "top_anomalies txns = nlargest 100 (\<lambda>t. \<bar>price_z t\<bar>) (anomalies txns)"

definition mk_anomaly_row :: "transaction \<Rightarrow> anomaly_row" where
  "mk_anomaly_row t =
     \<lparr>ar_transaction_id = transaction_id t, ar_timestamp = timestamp t,
      ar_category = category t, ar_price = price_value t, ar_price_z = price_z t,
      ar_anomaly_label = anomaly_label t, ar_anomaly_notes = anomaly_notes t\<rparr>"

definition anomalies_export :: "transaction list \<Rightarrow> anomaly_row list" where
  "anomalies_export txns = map mk_anomaly_row (top_anomalies txns)"

text \<open>\<^verbatim>\<open>categories_export = stats_export['categories']\<close>\<close>

definition categories_export :: "transaction list \<Rightarrow> (string \<times> category_entry) list" where
  "categories_export txns = sv_categories (stats_export txns)"

section \<open>The script as a whole\<close>

text \<open>
  The script computes the views one after the other and writes each to its file as soon
  as it is computed. Nothing catches an exception, so the first view that raises ends
  the run: the files written before it exist, the later ones do not.
\<close>

datatype artifact =
    Network network_view
  | Timeline timeline_view
  | Particles particle_view
  | GeoFlows geo_view
  | WashRing ring_view
  | Marketplaces marketplace_view
  | Stats stats_view
  | Transactions "transaction_row list"
  | Anomalies "anomaly_row list"
  | Categories "(string \<times> category_entry) list"

fun file_name :: "artifact \<Rightarrow> string" where
  "file_name (Network _) = ''network.json''"
| "file_name (Timeline _) = ''timeline.json''"
| "file_name (Particles _) = ''particles.json''"
| "file_name (GeoFlows _) = ''geo_flows.json''"
| "file_name (WashRing _) = ''wash_ring.json''"
| "file_name (Marketplaces _) = ''marketplaces.json''"
| "file_name (Stats _) = ''stats.json''"
| "file_name (Transactions _) = ''transactions.json''"
| "file_name (Anomalies _) = ''anomalies.json''"
| "file_name (Categories _) = ''categories.json''"

fun run_stages :: "(error + artifact) list \<Rightarrow> artifact list \<times> error option" where
  "run_stages [] = ([], None)"
| "run_stages (Inl e # rest) = ([], Some e)"
| "run_stages (Inr a # rest) = (a # fst (run_stages rest), snd (run_stages rest))"

text \<open>
  The stages in script order. \<open>rnd 0\<close> holds the draws of the particle sample,
  \<open>rnd 1\<close> to \<open>rnd 3\<close> those of the marketplace samples, \<open>rnd 4\<close> those of the
  dashboard sample.
\<close>

definition stages :: "(nat \<Rightarrow> nat \<Rightarrow> nat) \<Rightarrow> user list \<Rightarrow> transaction list \<Rightarrow> (error + artifact) list" where
  "stages rnd users txns =
     [map_sum id Network (network_export users txns),
      Inr (Timeline (timeline_export txns)),
      map_sum id Particles (particle_export (rnd 0) txns),
      map_sum id GeoFlows (geo_export txns),
      Inr (WashRing (ring_export txns)),
      map_sum id Marketplaces (marketplace_export rnd txns),
      Inr (Stats (stats_export txns)),
      map_sum id Transactions (transactions_export (rnd 4) txns),
      Inr (Anomalies (anomalies_export txns)),
      Inr (Categories (categories_export txns))]"

definition run_script :: "(nat \<Rightarrow> nat \<Rightarrow> nat) \<Rightarrow> user list \<Rightarrow> transaction list \<Rightarrow> artifact list \<times> error option" where
  "run_script rnd users txns = run_stages (stages rnd users txns)"

section \<open>Notions the properties are stated with\<close>

text \<open>
  The labels of the edge group of an ordered pair of users, in row order: the rows of
  \<open>network_txns\<close> with that buyer and that seller.
\<close>

definition edge_group_labels :: "transaction list \<Rightarrow> string \<Rightarrow> string \<Rightarrow> string list" where
  "edge_group_labels txns b s =
     map anomaly_label (filter (\<lambda>t. buyer_id t = b \<and> seller_id t = s) (network_txns txns))"

text \<open>
  The tie-break the specification names for the modal label: of the labels of highest
  frequency, the one met first in the group.
\<close>

definition first_encountered_mode :: "string list \<Rightarrow> string option" where
  "first_encountered_mode labels =
     find (\<lambda>v. count_list labels v = fold max (map (count_list labels) labels) 0) labels"

text \<open>
  The row that \<open>agg_edge\<close> builds for a group when the label aggregation returns: the
  modal label is the first entry of the sorted modes.
\<close>

definition edge_group_of :: "bool \<Rightarrow> (string \<times> string) \<times> transaction list \<Rightarrow> edge_group" where
  "edge_group_of int64 kg =
     \<lparr>g_buyer_id = fst (fst kg),
      g_seller_id = snd (fst kg),
      g_transaction_id = length (snd kg),
      g_price = price_sum int64 (snd kg),
      g_price_z = mean (map (\<lambda>t. \<bar>price_z t\<bar>) (snd kg)),
      g_is_anomaly = bool_sum (map is_anomaly (snd kg)),
      g_anomaly_label = hd (mode (map anomaly_label (snd kg)))\<rparr>"

text \<open>The region codes of the coordinate table.\<close>

definition known_regions :: "string set" where
  "known_regions = {''EU'', ''SEA'', ''EAST_ASIA'', ''OCE'', ''LATAM''}"

text \<open>
  How often a user appears as buyer or as seller among the rows labelled as wash trades,
  how often as buyer in the ledger, and how often as seller in the ledger.
\<close>

definition ring_frequency :: "transaction list \<Rightarrow> string \<Rightarrow> nat" where
  "ring_frequency txns u =
     length (filter (\<lambda>t. buyer_id t = u) (wash_trades txns))
     + length (filter (\<lambda>t. seller_id t = u) (wash_trades txns))"





section \<open>Example ledgers\<close>

text \<open>A row with the fields the examples vary; the other fields are fixed.\<close>

definition example_txn ::
  "string \<Rightarrow> string \<Rightarrow> string \<Rightarrow> string \<Rightarrow> rat \<Rightarrow> string \<Rightarrow> string \<Rightarrow> string \<Rightarrow> transaction" where
  "example_txn tid b s lab z m br sr =
     \<lparr>transaction_id = tid, timestamp = (2024, 1, 5, 0, 0, 0), buyer_id = b, seller_id = s,
      category = ''weapon'', price = FloatCell 10, price_z = z, marketplace = Some m,
      buyer_region = Some br, seller_region = Some sr, anomaly_label = lab,
      anomaly_notes = ''''\<rparr>"

text \<open>A ledger whose only row is a high-intensity one.\<close>

definition flare_only_ledger :: "transaction list" where
  "flare_only_ledger =
     [example_txn ''T1'' ''U1'' ''U2'' ''price_spike'' 3 ''Prime'' ''EU'' ''SEA'']"

text \<open>A ledger whose only row trades on the marketplace Prime, within one region.\<close>

definition prime_only_ledger :: "transaction list" where
  "prime_only_ledger =
     [example_txn ''T1'' ''U1'' ''U2'' ''normal'' 1 ''Prime'' ''EU'' ''EU'']"

text \<open>A ledger with one edge group whose two labels are tied.\<close>

definition tie_ledger :: "transaction list" where
  "tie_ledger =
     [example_txn ''T1'' ''U1'' ''U2'' ''wash_trade_ring'' 1 ''Prime'' ''EU'' ''EU'',
      example_txn ''T2'' ''U1'' ''U2'' ''normal'' 1 ''Prime'' ''EU'' ''EU'']"

text \<open>A ledger with one flow into a region that has no coordinates.\<close>

definition unknown_region_ledger :: "transaction list" where
  "unknown_region_ledger =
     [example_txn ''T1'' ''U1'' ''U2'' ''normal'' 1 ''Prime'' ''EU'' ''MARS'']"

text \<open>A ledger with two flows between known regions and one trade within a region.\<close>

definition two_flow_ledger :: "transaction list" where
  "two_flow_ledger =
     [example_txn ''T1'' ''U1'' ''U2'' ''normal'' 1 ''Prime'' ''SEA'' ''EU'',
      example_txn ''T2'' ''U2'' ''U3'' ''price_spike'' 3 ''Shadow'' ''EU'' ''OCE'',
      example_txn ''T3'' ''U3'' ''U1'' ''normal'' 1 ''Prime'' ''EU'' ''EU'']"




text \<open>
  A ledger in which two users trade back and forth under the wash trade label, once more
  without the label, and one of them buys from a third user.
\<close>

definition ring_ledger :: "transaction list" where
  "ring_ledger =
     [example_txn ''T1'' ''U1'' ''U2'' ''wash_trade_ring'' 1 ''Prime'' ''EU'' ''EU'',
      example_txn ''T2'' ''U2'' ''U1'' ''wash_trade_ring'' 1 ''Prime'' ''EU'' ''EU'',
      example_txn ''T3'' ''U1'' ''U3'' ''normal'' 1 ''Prime'' ''EU'' ''EU'',
      example_txn ''T4'' ''U1'' ''U2'' ''normal'' 1 ''Prime'' ''EU'' ''EU'']"

text \<open>A generator whose every draw is 0: each sample takes the rows in row order.\<close>

definition zero_draws :: "nat \<Rightarrow> nat \<Rightarrow> nat" where
  "zero_draws call k = 0"


text \<open>
  A ledger whose only row is a sale from Europe into the region that the file names
  \<^verbatim>\<open>NA\<close>, a text that \<^verbatim>\<open>read_csv\<close> takes for a missing value.
\<close>

definition missing_region_ledger :: "transaction list" where
  "missing_region_ledger =
     [(example_txn ''T1'' ''U1'' ''U2'' ''normal'' 1 ''Prime'' ''EU'' ''EU'')
        \<lparr>seller_region := read_cell ''NA''\<rparr>]"

section \<open>Properties of the pandas operations\<close>

lemma set_unique [simp]: "set (unique xs) = set xs"
  by (induction xs rule: unique.induct) auto

lemma distinct_unique [simp]: "distinct (unique xs)"
  by (induction xs rule: unique.induct) auto

lemma traverse_Inr:
  "traverse f xs = Inr ys \<Longrightarrow> map f xs = map Inr ys"
  by (induction xs arbitrary: ys) (auto split: sum.splits)

lemma traverse_Inl:
  "traverse f xs = Inl e \<Longrightarrow> \<exists>x\<in>set xs. f x = Inl e"
  by (induction xs) (auto split: sum.splits)

lemma traverse_total:
  "(\<And>x. x \<in> set xs \<Longrightarrow> \<exists>y. f x = Inr y) \<Longrightarrow> \<exists>ys. traverse f xs = Inr ys"
proof (induction xs)
  case Nil
  then show ?case by simp
next
  case (Cons x xs)
  then obtain y where "f x = Inr y" by auto
  moreover from Cons obtain ys where "traverse f xs = Inr ys" by auto
  ultimately show ?case by simp
qed

lemma traverse_fails:
  "x \<in> set xs \<Longrightarrow> f x = Inl e \<Longrightarrow> \<exists>e'. traverse f xs = Inl e'"
  by (induction xs) (auto split: sum.splits)

lemma groupby_member:
  "(k, g) \<in> set (groupby key rows) \<longleftrightarrow>
     k \<in> key ` set rows \<and> g = filter (\<lambda>r. key r = k) rows"
  by (auto simp: groupby_def)

lemma groupby_nonempty:
  "(k, g) \<in> set (groupby key rows) \<Longrightarrow> g \<noteq> []"
  by (auto simp: groupby_member filter_empty_conv)

lemma groupby_keys:
  "map fst (groupby key rows) = sort (remdups (map key rows))"
  by (simp add: groupby_def comp_def)

lemma set_map_filter_iff:
  "k \<in> set (List.map_filter key rows) \<longleftrightarrow> (\<exists>r\<in>set rows. key r = Some k)"
  by (induction rows) (auto split: option.splits)

lemma groupby_dropna_member:
  "(k, g) \<in> set (groupby_dropna key rows) \<longleftrightarrow>
   (\<exists>r\<in>set rows. key r = Some k) \<and> g = filter (\<lambda>r. key r = Some k) rows"
proof -
  have "(k, g) \<in> set (groupby_dropna key rows) \<longleftrightarrow>
        k \<in> set (List.map_filter key rows) \<and> g = filter (\<lambda>r. key r = Some k) rows"
    by (auto simp: groupby_dropna_def)
  then show ?thesis by (simp only: set_map_filter_iff)
qed

lemma groupby_dropna_nonempty:
  "(k, g) \<in> set (groupby_dropna key rows) \<Longrightarrow> g \<noteq> []"
  by (auto simp: groupby_dropna_member filter_empty_conv)

lemma groupby_dropna_keys:
  "map fst (groupby_dropna key rows) = sort (remdups (List.map_filter key rows))"
  by (simp add: groupby_dropna_def comp_def)

lemma fold_max_upper: "x \<in> set ns \<Longrightarrow> x \<le> fold max ns (a::nat)"
proof (induction ns arbitrary: a)
  case Nil
  then show ?case by simp
next
  case (Cons n ns)
  have mono: "b \<le> fold max ns b" for b :: nat
    by (induction ns arbitrary: b) (auto intro: order_trans [OF max.cobounded2])
  from Cons show ?case
    by (auto intro: order_trans [OF _ mono])
qed

lemma fold_max_attained: "fold max ns (a::nat) = a \<or> fold max ns a \<in> set ns"
proof (induction ns arbitrary: a)
  case Nil
  then show ?case by simp
next
  case (Cons n ns)
  from Cons [of "max n a"] show ?case
    by (auto simp: max_def split: if_splits)
qed

lemma top_count_attained:
  assumes "xs \<noteq> []"
  shows "\<exists>x\<in>set xs. count_list xs x = fold max (map (count_list xs) xs) 0"
proof -
  let ?top = "fold max (map (count_list xs) xs) 0"
  from assms obtain x where x: "x \<in> set xs" by (cases xs) auto
  then have "count_list xs x \<le> ?top" by (intro fold_max_upper) simp
  moreover from x have "0 < count_list xs x" by (metis count_list_0_iff gr0I)
  ultimately have "?top \<noteq> 0" by simp
  with fold_max_attained [of "map (count_list xs) xs" 0]
  have "?top \<in> set (map (count_list xs) xs)" by auto
  then show ?thesis by auto
qed

lemma set_mode:
  "set (mode xs) = {v \<in> set xs. count_list xs v = fold max (map (count_list xs) xs) 0}"
  by (auto simp: mode_def Let_def)

lemma mode_nonempty: "xs \<noteq> [] \<Longrightarrow> mode xs \<noteq> []"
proof -
  assume "xs \<noteq> []"
  from top_count_attained [OF this] have "set (mode xs) \<noteq> {}"
    unfolding set_mode by blast
  then show ?thesis by auto
qed

lemma sorted_mode: "sorted (mode xs)"
  by (simp add: mode_def Let_def)

lemma mode_count_top:
  "m \<in> set (mode xs) \<Longrightarrow> count_list xs l \<le> count_list xs m"
proof -
  assume m: "m \<in> set (mode xs)"
  show ?thesis
  proof (cases "l \<in> set xs")
    case True
    then have "count_list xs l \<le> fold max (map (count_list xs) xs) 0"
      by (intro fold_max_upper) simp
    with m show ?thesis by (simp add: set_mode)
  next
    case False
    then show ?thesis by (simp add: count_list_0_iff)
  qed
qed

lemma at0_mode: "xs \<noteq> [] \<Longrightarrow> at0 (mode xs) = Inr (hd (mode xs))"
  using mode_nonempty [of xs] by (cases "mode xs") (simp_all add: at0_def)

lemma hd_mode_in: "xs \<noteq> [] \<Longrightarrow> hd (mode xs) \<in> set (mode xs)"
  using mode_nonempty [of xs] by simp

lemma hd_mode_least: "l \<in> set (mode xs) \<Longrightarrow> hd (mode xs) \<le> l"
  using sorted_mode [of xs] by (cases "mode xs") auto

lemma traverse_map:
  "(\<And>x. x \<in> set xs \<Longrightarrow> f x = Inr (g x)) \<Longrightarrow> traverse f xs = Inr (map g xs)"
  by (induction xs) simp_all

lemma sorted_take_drop_le:
  assumes "sorted (map f xs)" "x \<in> set (take n xs)" "y \<in> set (drop n xs)"
  shows "f x \<le> f y"
proof -
  from assms(1) have "sorted (map f (take n xs) @ map f (drop n xs))"
    by (simp flip: map_append)
  then have "\<forall>a\<in>set (map f (take n xs)). \<forall>b\<in>set (map f (drop n xs)). a \<le> b"
    by (simp add: sorted_append)
  with assms(2,3) show ?thesis by simp
qed

lemma length_unique: "length (unique xs) = card (set xs)"
  using distinct_card [of "unique xs"] by simp

lemma mset_keys_value_counts: "mset (map fst (value_counts xs)) = mset (unique xs)"
proof -
  have "mset (map fst (value_counts xs))
        = image_mset fst (mset (map (\<lambda>v. (v, count_list xs v)) (unique xs)))"
    by (simp add: value_counts_def)
  also have "\<dots> = mset (unique xs)"
    by (simp add: image_mset.compositionality comp_def)
  finally show ?thesis .
qed

lemma distinct_keys_value_counts: "distinct (map fst (value_counts xs))"
  using mset_eq_imp_distinct_iff [OF mset_keys_value_counts, of xs] by simp

lemma set_keys_value_counts: "set (map fst (value_counts xs)) = set xs"
  using mset_eq_setD [OF mset_keys_value_counts, of xs] by simp

lemma length_value_counts: "length (value_counts xs) = card (set xs)"
  by (simp add: value_counts_def length_unique)

lemma snd_value_counts:
  "p \<in> set (value_counts xs) \<Longrightarrow> snd p = count_list xs (fst p)"
  by (auto simp: value_counts_def)

lemma sorted_value_counts: "sorted (map (\<lambda>p. - int (snd p)) (value_counts xs))"
  by (simp add: value_counts_def)

lemma distinct_head_index: "distinct (head_index n (value_counts xs))"
  using distinct_keys_value_counts [of xs]
  by (simp add: head_index_def flip: take_map)

lemma set_head_index_subset: "set (head_index n (value_counts xs)) \<subseteq> set xs"
proof -
  have "set (head_index n (value_counts xs)) \<subseteq> set (map fst (value_counts xs))"
    unfolding head_index_def by (auto dest: in_set_takeD)
  then show ?thesis by (simp only: set_keys_value_counts)
qed

lemma length_head_index: "length (head_index n (value_counts xs)) = min n (card (set xs))"
  by (simp add: head_index_def length_value_counts min.commute)

lemma head_index_top:
  assumes u: "u \<in> set (head_index n (value_counts xs))"
    and v: "v \<notin> set (head_index n (value_counts xs))"
  shows "count_list xs v \<le> count_list xs u"
proof (cases "v \<in> set xs")
  case False
  then show ?thesis by (simp add: count_list_0_iff)
next
  case True
  let ?vc = "value_counts xs"
  from u obtain p where p: "p \<in> set (take n ?vc)" "fst p = u"
    by (auto simp: head_index_def)
  from True have "v \<in> set (map fst ?vc)" by (simp only: set_keys_value_counts)
  then obtain q where q: "q \<in> set ?vc" "fst q = v" by auto
  from q(1) have "q \<in> set (take n ?vc) \<or> q \<in> set (drop n ?vc)"
    by (metis Un_iff append_take_drop_id set_append)
  moreover from v q(2) have "q \<notin> set (take n ?vc)"
    by (auto simp: head_index_def)
  ultimately have "q \<in> set (drop n ?vc)" by simp
  from sorted_take_drop_le [OF sorted_value_counts p(1) this]
  have "snd q \<le> snd p" by simp
  moreover from p(1) have "snd p = count_list xs (fst p)"
    by (intro snd_value_counts) (rule in_set_takeD)
  moreover from q(1) have "snd q = count_list xs (fst q)" by (rule snd_value_counts)
  ultimately show ?thesis using p(2) q(2) by simp
qed

lemma count_list_map_filter: "count_list (map f xs) u = length (filter (\<lambda>t. f t = u) xs)"
  by (induction xs) simp_all




lemma mset_take_subset: "mset (take n xs) \<subseteq># mset xs"
proof -
  have "mset xs = mset (take n xs) + mset (drop n xs)"
    by (simp flip: mset_append)
  then show ?thesis by (metis mset_subset_eq_add_left)
qed

lemma mset_shuffle: "mset (shuffle rnd xs) = mset xs"
proof (induction rnd xs rule: shuffle.induct)
  case (1 rnd xs)
  show ?case
  proof (cases "xs = []")
    case True
    then show ?thesis by (simp add: shuffle.simps)
  next
    case False
    let ?i = "rnd (length xs) mod length xs"
    from False have i: "?i < length xs" by simp
    have "mset (shuffle rnd xs)
          = add_mset (xs ! ?i) (mset (shuffle rnd (take ?i xs @ drop (Suc ?i) xs)))"
      using False by (subst shuffle.simps) (simp add: Let_def)
    also have "\<dots> = add_mset (xs ! ?i) (mset (take ?i xs @ drop (Suc ?i) xs))"
      using "1.IH" [OF False refl] by simp
    also have "\<dots> = mset (take ?i xs @ xs ! ?i # drop (Suc ?i) xs)" by simp
    also have "\<dots> = mset xs" using id_take_nth_drop [OF i] by simp
    finally show ?thesis .
  qed
qed

lemma length_shuffle: "length (shuffle rnd xs) = length xs"
  using mset_shuffle [of rnd xs] by (metis size_mset)

lemma set_shuffle: "set (shuffle rnd xs) = set xs"
  using mset_shuffle [of rnd xs] by (metis set_mset_mset)

lemma sample_Inr:
  "sample n rnd rows = Inr s \<Longrightarrow> length s = n \<and> set s \<subseteq> set rows \<and> mset s \<subseteq># mset rows"
proof -
  assume a: "sample n rnd rows = Inr s"
  then have n: "n \<le> length rows" and s: "s = take n (shuffle rnd rows)"
    by (auto simp: sample_def split: if_splits)
  have "mset (take n (shuffle rnd rows)) \<subseteq># mset (shuffle rnd rows)"
    by (rule mset_take_subset)
  then have "mset s \<subseteq># mset rows" unfolding s by (simp only: mset_shuffle)
  moreover have "set s \<subseteq> set rows"
    unfolding s using set_take_subset [of n "shuffle rnd rows"] by (simp only: set_shuffle)
  moreover have "length s = n" unfolding s using n by (simp add: length_shuffle)
  ultimately show ?thesis by simp
qed

lemma sample_Inl: "sample n rnd rows = Inl e \<longleftrightarrow> length rows < n \<and> e = ValueError"
  by (auto simp: sample_def)

lemma sum_list_indicator:
  "distinct cs \<Longrightarrow> a \<in> set cs \<Longrightarrow> sum_list (map (\<lambda>c. if a = c then 1 else 0) cs) = (1::nat)"
proof (induction cs)
  case Nil
  then show ?case by simp
next
  case (Cons c cs)
  show ?case
  proof (cases "a = c")
    case True
    with Cons.prems have "a \<notin> set cs" by simp
    then have "sum_list (map (\<lambda>c. if a = c then 1 else 0) cs) = (0::nat)"
      by (induction cs) auto
    with True show ?thesis by simp
  next
    case False
    with Cons show ?thesis by simp
  qed
qed

lemma length_grouped_by_key:
  assumes "distinct cs" and "\<forall>x\<in>set xs. key x \<in> set cs"
  shows "sum_list (map (\<lambda>c. length (filter (\<lambda>t. key t = c) xs)) cs) = length xs"
  using assms(2)
proof (induction xs)
  case Nil
  then show ?case by simp
next
  case (Cons x xs)
  have "sum_list (map (\<lambda>c. length (filter (\<lambda>t. key t = c) (x # xs))) cs)
        = sum_list (map (\<lambda>c. (if key x = c then 1 else 0) + length (filter (\<lambda>t. key t = c) xs)) cs)"
    by (intro arg_cong [where f = sum_list] map_cong) simp_all
  also have "\<dots> = sum_list (map (\<lambda>c. if key x = c then 1 else 0) cs)
                  + sum_list (map (\<lambda>c. length (filter (\<lambda>t. key t = c) xs)) cs)"
    by (rule sum_list_addf)
  also have "\<dots> = 1 + length xs"
    using Cons sum_list_indicator [OF assms(1), of "key x"] by simp
  finally show ?case by simp
qed

lemma bool_sum_le: "bool_sum bs \<le> length bs"
  by (simp add: bool_sum_def)

lemma bool_mean_in_unit: "bs \<noteq> [] \<Longrightarrow> in_unit (bool_mean bs)"
  using bool_sum_le [of bs] by (simp add: bool_mean_def in_unit_def)

lemma bool_mean_NaN_iff: "bool_mean bs = NaN \<longleftrightarrow> bs = []"
  by (simp add: bool_mean_def)

lemma in_unit_bool_mean_iff: "in_unit (bool_mean bs) \<longleftrightarrow> bs \<noteq> []"
  using bool_mean_in_unit [of bs] by (auto simp: bool_mean_def in_unit_def)

lemma mean_abs_nonneg:
  assumes "rows \<noteq> []"
  shows "\<exists>m. mean (map (\<lambda>t. \<bar>col t\<bar>) rows) = Float m \<and> 0 \<le> m"
proof -
  have "0 \<le> sum_list (map (\<lambda>t. \<bar>col t\<bar>) rows)"
    by (rule sum_list_nonneg) auto
  then have "0 \<le> sum_list (map (\<lambda>t. \<bar>col t\<bar>) rows) / of_nat (length rows)"
    by simp
  with assms show ?thesis by (simp add: mean_def)
qed

lemma mean_NaN_iff: "mean xs = NaN \<longleftrightarrow> xs = []"
  by (simp add: mean_def)








section \<open>The graph aggregator: the active users and their nodes\<close>


lemma bool_sum_filter: "bool_sum (map P xs) = length (filter P xs)"
  by (simp add: bool_sum_def filter_map comp_def)






section \<open>The graph aggregator: the modal label of an edge\<close>

lemma agg_edge_nonempty: "snd kg \<noteq> [] \<Longrightarrow> agg_edge int64 kg = Inr (edge_group_of int64 kg)"
  by (simp add: agg_edge_def agg_label_def at0_mode edge_group_of_def)

lemma edge_groups_closed:
  "edge_groups txns
   = Inr (map (edge_group_of (price_int64 txns)) (groupby (\<lambda>t. (buyer_id t, seller_id t)) (network_txns txns)))"
  unfolding edge_groups_def
proof (rule traverse_map)
  fix kg assume "kg \<in> set (groupby (\<lambda>t. (buyer_id t, seller_id t)) (network_txns txns))"
  then have "snd kg \<noteq> []" using groupby_nonempty [of "fst kg" "snd kg"] by simp
  then show "agg_edge (price_int64 txns) kg = Inr (edge_group_of (price_int64 txns) kg)"
    by (rule agg_edge_nonempty)
qed

lemma edge_data_closed:
  "edge_data txns
   = Inr (map (\<lambda>kg. mk_edge (edge_group_of (price_int64 txns) kg))
            (groupby (\<lambda>t. (buyer_id t, seller_id t)) (network_txns txns)))"
  by (simp add: edge_data_def edge_groups_closed comp_def)

lemma edge_of_group_labels:
  assumes "kg \<in> set (groupby (\<lambda>t. (buyer_id t, seller_id t)) (network_txns txns))"
  shows "edge_group_labels txns (e_source (mk_edge (edge_group_of (price_int64 txns) kg))) (e_target (mk_edge (edge_group_of (price_int64 txns) kg)))
         = map anomaly_label (snd kg)"
proof -
  obtain b s g where kg: "kg = ((b, s), g)" by (cases kg) auto
  with assms have "g = filter (\<lambda>r. (buyer_id r, seller_id r) = (b, s)) (network_txns txns)"
    by (simp add: groupby_member)
  with kg show ?thesis
    by (simp add: edge_group_labels_def mk_edge_def edge_group_of_def)
qed

text \<open>
  Claim C2, as the code has it. The aggregation of the edge groups always returns, with
  one edge per ordered pair of active users that trade, in ascending order of the pair.
  The anomaly type of an edge is a label of its group that no label of the group
  exceeds in frequency; among the labels of that highest frequency it is the least in
  string order (pandas returns the modes sorted), not the one met first.
\<close>

theorem edge_anomaly_type_is_least_mode:
  "\<exists>es. edge_data txns = Inr es \<and>
     map (\<lambda>e. (e_source e, e_target e)) es
       = sort (remdups (map (\<lambda>t. (buyer_id t, seller_id t)) (network_txns txns))) \<and>
     (\<forall>e\<in>set es.
        edge_group_labels txns (e_source e) (e_target e) \<noteq> [] \<and>
        e_anomaly_type e \<in> set (edge_group_labels txns (e_source e) (e_target e)) \<and>
        (\<forall>l. count_list (edge_group_labels txns (e_source e) (e_target e)) l
               \<le> count_list (edge_group_labels txns (e_source e) (e_target e)) (e_anomaly_type e)) \<and>
        (\<forall>l\<in>set (edge_group_labels txns (e_source e) (e_target e)).
           count_list (edge_group_labels txns (e_source e) (e_target e)) l
             = count_list (edge_group_labels txns (e_source e) (e_target e)) (e_anomaly_type e)
           \<longrightarrow> e_anomaly_type e \<le> l))"
proof (intro exI conjI ballI allI impI)
  let ?G = "groupby (\<lambda>t. (buyer_id t, seller_id t)) (network_txns txns)"
  let ?es = "map (\<lambda>kg. mk_edge (edge_group_of (price_int64 txns) kg)) ?G"
  show "edge_data txns = Inr ?es" by (rule edge_data_closed)
  show "map (\<lambda>e. (e_source e, e_target e)) ?es
       = sort (remdups (map (\<lambda>t. (buyer_id t, seller_id t)) (network_txns txns)))"
    using groupby_keys [of "\<lambda>t. (buyer_id t, seller_id t)" "network_txns txns"]
    by (simp add: comp_def mk_edge_def edge_group_of_def)
  fix e assume "e \<in> set ?es"
  then obtain kg where kg: "kg \<in> set ?G" and e: "e = mk_edge (edge_group_of (price_int64 txns) kg)" by auto
  let ?labels = "map anomaly_label (snd kg)"
  have labels: "edge_group_labels txns (e_source e) (e_target e) = ?labels"
    unfolding e using kg by (rule edge_of_group_labels)
  have ty: "e_anomaly_type e = hd (mode ?labels)"
    by (simp add: e mk_edge_def edge_group_of_def)
  from kg have ne: "?labels \<noteq> []" using groupby_nonempty [of "fst kg" "snd kg"] by simp
  then have inm: "hd (mode ?labels) \<in> set (mode ?labels)" by (rule hd_mode_in)
  show "edge_group_labels txns (e_source e) (e_target e) \<noteq> []"
    unfolding labels by (rule ne)
  show "e_anomaly_type e \<in> set (edge_group_labels txns (e_source e) (e_target e))"
    unfolding labels ty using inm by (simp add: set_mode)
  show "count_list (edge_group_labels txns (e_source e) (e_target e)) l
               \<le> count_list (edge_group_labels txns (e_source e) (e_target e)) (e_anomaly_type e)" for l
    unfolding labels ty using inm by (rule mode_count_top)
  show "e_anomaly_type e \<le> l"
    if "l \<in> set (edge_group_labels txns (e_source e) (e_target e))"
       "count_list (edge_group_labels txns (e_source e) (e_target e)) l
             = count_list (edge_group_labels txns (e_source e) (e_target e)) (e_anomaly_type e)" for l
  proof -
    from that inm have "l \<in> set (mode ?labels)"
      unfolding labels ty by (simp add: set_mode)
    then show ?thesis unfolding ty by (rule hd_mode_least)
  qed
qed

theorem edge_anomaly_type_is_least_mode_witness:
  "edge_group_labels tie_ledger ''U1'' ''U2'' = [''wash_trade_ring'', ''normal''] \<and>
   map_sum id (map (\<lambda>e. (e_source e, e_target e, e_anomaly_type e))) (edge_data tie_ledger)
     = Inr [(''U1'', ''U2'', ''normal'')] \<and>
   ''normal'' \<le> ''wash_trade_ring''"
proof -
  have ev: "map_sum id (map (\<lambda>e. (e_source e, e_target e, e_anomaly_type e))) (edge_data tie_ledger)
     = Inr [(''U1'', ''U2'', ''normal'')]"
    by code_simp
  have lab: "edge_group_labels tie_ledger ''U1'' ''U2'' = [''wash_trade_ring'', ''normal'']"
    by code_simp
  from edge_anomaly_type_is_least_mode [of tie_ledger] obtain es where
    es: "edge_data tie_ledger = Inr es" and
    all: "\<forall>e\<in>set es.
        (\<forall>l\<in>set (edge_group_labels tie_ledger (e_source e) (e_target e)).
           count_list (edge_group_labels tie_ledger (e_source e) (e_target e)) l
             = count_list (edge_group_labels tie_ledger (e_source e) (e_target e)) (e_anomaly_type e)
           \<longrightarrow> e_anomaly_type e \<le> l)"
    by blast
  from ev es obtain e where e: "es = [e]" "e_source e = ''U1''" "e_target e = ''U2''"
    "e_anomaly_type e = ''normal''"
    by auto
  with all lab have "''normal'' \<le> ''wash_trade_ring''"
    by simp
  with ev lab show ?thesis by blast
qed

text \<open>
  Claim C2, as stated, fails. In the group of the tied ledger the label met first is
  \<open>wash_trade_ring\<close>; the edge carries \<open>normal\<close>.
\<close>

theorem first_encountered_tie_break_counterexample:
  "map_sum id (map e_anomaly_type) (edge_data tie_ledger) = Inr [''normal''] \<and>
   edge_group_labels tie_ledger ''U1'' ''U2'' = [''wash_trade_ring'', ''normal''] \<and>
   first_encountered_mode (edge_group_labels tie_ledger ''U1'' ''U2'') = Some ''wash_trade_ring''"
  by code_simp

section \<open>The particle field sampler\<close>

lemma length_particle_data:
  assumes "distinct categories" and "\<forall>t\<in>set particle_txns. category t \<in> set categories"
  shows "length (particle_data categories particle_txns) = length particle_txns"
proof -
  have "length (particle_data categories particle_txns)
        = sum_list (map (\<lambda>c. length (filter (\<lambda>t. category t = c) particle_txns)) categories)"
    by (simp add: particle_data_def length_concat comp_def)
  also have "\<dots> = length particle_txns" using assms by (rule length_grouped_by_key)
  finally show ?thesis .
qed

text \<open>
  The sample of the remainder raises exactly when the remainder has fewer rows than
  \<open>min(2000, |ledger|)\<close>, that is, when the ledger has a high-intensity row and fewer
  than 2000 others. When it does not raise, the view holds as many particles as there
  are high-intensity rows plus \<open>min(2000, |remainder|)\<close>.
\<close>

lemma particle_export_raises_iff:
  "particle_export rnd txns = Inl e
   \<longleftrightarrow> length (remainder txns) < min 2000 (length txns) \<and> e = ValueError"
  by (auto simp: particle_export_def normal_sample_def sample_def Let_def)

lemma particle_export_raises_iff_flare:
  "isl (particle_export rnd txns)
   \<longleftrightarrow> high_intensity txns \<noteq> [] \<and> length (remainder txns) < 2000"
proof -
  have "length txns = length (high_intensity txns) + length (remainder txns)"
    unfolding high_intensity_def remainder_def
    using sum_length_filter_compl [of "\<lambda>t. \<bar>price_z t\<bar> > 2" txns]
    by (simp add: not_less)
  then have "length (remainder txns) < min 2000 (length txns)
             \<longleftrightarrow> high_intensity txns \<noteq> [] \<and> length (remainder txns) < 2000"
    by (cases "high_intensity txns") auto
  moreover have "isl (particle_export rnd txns)
                 \<longleftrightarrow> length (remainder txns) < min 2000 (length txns)"
    using particle_export_raises_iff [of rnd txns]
    by (cases "particle_export rnd txns") auto
  ultimately show ?thesis by simp
qed

lemma particle_export_count:
  assumes "particle_export rnd txns = Inr pv"
  shows "length (particles pv)
         = length (high_intensity txns) + min 2000 (length (remainder txns))"
    and "total_particles pv = length (particles pv)"
proof -
  from assms obtain smp where
    smp: "normal_sample rnd txns = Inr smp" and
    pv: "pv = \<lparr>particles = particle_data (unique (map category txns)) (high_intensity txns @ smp),
                pv_categories =
                  map (\<lambda>(idx, cat).
                         \<lparr>cs_name = cat, cs_center_x = of_nat idx * 30,
                          cs_total = length (filter (\<lambda>t. category t = cat) txns),
                          cs_anomalies =
                            length (filter (\<lambda>t. category t = cat) (filter is_anomaly txns))\<rparr>)
                      (enumerate 0 (unique (map category txns))),
                total_particles =
                  length (particle_data (unique (map category txns)) (high_intensity txns @ smp)),
                flare_count =
                  length (filter p_is_flare
                    (particle_data (unique (map category txns)) (high_intensity txns @ smp)))\<rparr>"
    by (auto simp: particle_export_def Let_def split: sum.splits)
  from smp have len: "length smp = min 2000 (length txns)" and sub: "set smp \<subseteq> set (remainder txns)"
    unfolding normal_sample_def using sample_Inr by blast+
  from smp have "\<not> length (remainder txns) < min 2000 (length txns)"
    by (simp add: normal_sample_def sample_def split: if_splits)
  moreover have "length (remainder txns) \<le> length txns"
    by (simp add: remainder_def)
  ultimately have n: "min 2000 (length txns) = min 2000 (length (remainder txns))"
    by arith
  have "\<forall>t\<in>set (high_intensity txns @ smp). category t \<in> set (unique (map category txns))"
    using sub by (auto simp: high_intensity_def remainder_def)
  then have "length (particle_data (unique (map category txns)) (high_intensity txns @ smp))
             = length (high_intensity txns @ smp)"
    by (intro length_particle_data) simp_all
  with len n show "length (particles pv)
         = length (high_intensity txns) + min 2000 (length (remainder txns))"
    by (simp add: pv)
  show "total_particles pv = length (particles pv)" by (simp add: pv)
qed

text \<open>
  Claim C1. The sampler is to emit as many particles as there are high-intensity rows
  plus \<open>min(2000, |remainder|)\<close>, drawing the sample of the remainder with that size,
  and never to raise. The script asks for \<open>min(2000, |ledger|)\<close> rows instead: on the
  ledger with a single high-intensity row the remainder is empty, the size the claim
  names is 0, the script asks for 1 row, and the view ends in \<^verbatim>\<open>ValueError\<close>, whatever
  the generator draws. By the lemmas above this happens on every ledger with a
  high-intensity row and fewer than 2000 others, and the count the claim names is the
  count of every run that does not raise.
\<close>

theorem particle_sample_raises_on_small_ledger:
  "length (high_intensity flare_only_ledger) = 1 \<and>
   length (remainder flare_only_ledger) = 0 \<and>
   min 2000 (length (remainder flare_only_ledger)) = 0 \<and>
   min 2000 (length flare_only_ledger) = 1 \<and>
   particle_export rnd flare_only_ledger = Inl ValueError"
  by (simp add: flare_only_ledger_def example_txn_def remainder_def high_intensity_def
        particle_export_def normal_sample_def sample_def)

section \<open>The geographic flow aggregator\<close>

lemma region_lookup_unknown:
  "code \<notin> known_regions
   \<Longrightarrow> region_lookup code = Inl (KeyError code)"
  by (simp add: region_lookup_def region_coords_def known_regions_def)

lemma region_lookup_known:
  "code \<in> known_regions
   \<Longrightarrow> \<exists>c. region_lookup code = Inr c"
  by (auto simp: region_lookup_def region_coords_def known_regions_def)

lemma region_lookup_Inr:
  "region_lookup code = Inr c \<Longrightarrow> map_of region_coords code = Some c"
  by (simp add: region_lookup_def split: option.splits)

lemma flow_key_Some:
  "flow_key t = Some (b, s, m) \<longleftrightarrow>
   buyer_region t = Some b \<and> seller_region t = Some s \<and> marketplace t = Some m"
  by (simp add: flow_key_def split: option.splits)

lemma flows_member:
  assumes "row \<in> set (flows txns)"
  obtains kg where "kg \<in> set (groupby_dropna flow_key txns)"
    and "row = agg_flow (price_int64 txns) kg"
    and "fst (fst kg) \<noteq> fst (snd (fst kg))"
  using assms by (auto simp: flows_def agg_flow_def)

lemma flows_count_positive:
  assumes "row \<in> set (flows txns)"
  shows "0 < f_transaction_id row"
proof -
  from assms obtain kg where
    kg: "kg \<in> set (groupby_dropna flow_key txns)"
    and row: "row = agg_flow (price_int64 txns) kg"
    by (rule flows_member)
  from kg have "snd kg \<noteq> []" using groupby_dropna_nonempty [of "fst kg" "snd kg"] by simp
  with row show ?thesis by (simp add: agg_flow_def)
qed

text \<open>
  The groups that reach the loop over the flows: the triples of a buyer region, a
  different seller region and a marketplace that some row of the ledger holds, all three
  cells present.
\<close>

lemma flows_keys:
  "(b, s, m) \<in> set (map (\<lambda>row. (f_buyer_region row, f_seller_region row, f_marketplace row))
                      (flows txns))
   \<longleftrightarrow> b \<noteq> s \<and> (\<exists>t\<in>set txns. buyer_region t = Some b \<and> seller_region t = Some s \<and>
                                marketplace t = Some m)"
proof
  assume "(b, s, m) \<in> set (map (\<lambda>row. (f_buyer_region row, f_seller_region row, f_marketplace row))
                      (flows txns))"
  then obtain row where row: "row \<in> set (flows txns)"
    and k: "f_buyer_region row = b" "f_seller_region row = s" "f_marketplace row = m"
    by auto
  from row obtain kg where
    kg: "kg \<in> set (groupby_dropna flow_key txns)"
    and r: "row = agg_flow (price_int64 txns) kg"
    and ne: "fst (fst kg) \<noteq> fst (snd (fst kg))"
    by (rule flows_member)
  from r k have key: "fst kg = (b, s, m)" by (simp add: agg_flow_def prod_eq_iff)
  then have "((b, s, m), snd kg) \<in> set (groupby_dropna flow_key txns)"
    using kg by (metis prod.collapse)
  then have "\<exists>t\<in>set txns. flow_key t = Some (b, s, m)"
    by (simp add: groupby_dropna_member)
  with ne key
  show "b \<noteq> s \<and> (\<exists>t\<in>set txns. buyer_region t = Some b \<and> seller_region t = Some s \<and>
                                marketplace t = Some m)"
    by (simp add: flow_key_Some)
next
  assume a: "b \<noteq> s \<and> (\<exists>t\<in>set txns. buyer_region t = Some b \<and> seller_region t = Some s \<and>
                                marketplace t = Some m)"
  then have "\<exists>t\<in>set txns. flow_key t = Some (b, s, m)" by (simp add: flow_key_Some)
  then have "((b, s, m), filter (\<lambda>t. flow_key t = Some (b, s, m)) txns)
             \<in> set (groupby_dropna flow_key txns)"
    by (simp add: groupby_dropna_member)
  then have "agg_flow (price_int64 txns) ((b, s, m), filter (\<lambda>t. flow_key t = Some (b, s, m)) txns)
               \<in> agg_flow (price_int64 txns) ` set (groupby_dropna flow_key txns)"
    by (rule imageI)
  with a have "agg_flow (price_int64 txns) ((b, s, m), filter (\<lambda>t. flow_key t = Some (b, s, m)) txns)
               \<in> set (flows txns)"
    by (simp add: flows_def agg_flow_def)
  then have "(\<lambda>row. (f_buyer_region row, f_seller_region row, f_marketplace row))
               (agg_flow (price_int64 txns) ((b, s, m), filter (\<lambda>t. flow_key t = Some (b, s, m)) txns))
             \<in> (\<lambda>row. (f_buyer_region row, f_seller_region row, f_marketplace row)) ` set (flows txns)"
    by (rule imageI)
  then show "(b, s, m) \<in> set (map (\<lambda>row. (f_buyer_region row, f_seller_region row, f_marketplace row))
                      (flows txns))"
    by (simp add: agg_flow_def)
qed

lemma mk_flow_Inr:
  assumes "mk_flow row = Inr fl"
  shows "fl_source fl = f_buyer_region row \<and> fl_target fl = f_seller_region row \<and>
         fl_marketplace fl = f_marketplace row \<and>
         map_of region_coords (fl_source fl) = Some (fl_source_coords fl) \<and>
         map_of region_coords (fl_target fl) = Some (fl_target_coords fl)"
proof -
  from assms obtain sc tc rate where
    sc: "region_lookup (f_buyer_region row) = Inr sc" and
    tc: "region_lookup (f_seller_region row) = Inr tc" and
    fl: "fl = \<lparr>fl_source = f_buyer_region row, fl_target = f_seller_region row,
               fl_source_coords = sc, fl_target_coords = tc,
               fl_marketplace = f_marketplace row, fl_tx_count = f_transaction_id row,
               fl_total_value = f_price row, fl_anomaly_count = f_is_anomaly row,
               fl_anomaly_rate = rate, fl_intensity = min rate 1\<rparr>"
    by (auto simp: mk_flow_def split: sum.splits)
  from sc tc show ?thesis
    unfolding fl by (simp add: region_lookup_Inr)
qed

lemma mk_flow_Inl:
  assumes "mk_flow row = Inl e" and "0 < f_transaction_id row"
  shows "\<exists>k. e = KeyError k \<and> k \<notin> known_regions"
proof (cases "f_buyer_region row \<in> known_regions")
  case False
  from region_lookup_unknown [OF this] assms(1) have "e = KeyError (f_buyer_region row)"
    by (simp add: mk_flow_def)
  with False show ?thesis by blast
next
  case True
  from region_lookup_known [OF this] obtain sc where
    sc: "region_lookup (f_buyer_region row) = Inr sc" by blast
  show ?thesis
  proof (cases "f_seller_region row \<in> known_regions")
    case False
    from region_lookup_unknown [OF this] sc assms(1) have "e = KeyError (f_seller_region row)"
      by (simp add: mk_flow_def)
    with False show ?thesis by blast
  next
    case True
    from region_lookup_known [OF this] obtain tc where
      "region_lookup (f_seller_region row) = Inr tc" by blast
    with sc assms show ?thesis
      by (simp add: mk_flow_def int_div_def)
  qed
qed

lemma mk_flow_unknown:
  assumes "f_buyer_region row \<notin> known_regions
           \<or> f_seller_region row \<notin> known_regions"
  shows "\<exists>e. mk_flow row = Inl e"
proof (cases "f_buyer_region row \<in> known_regions")
  case False
  from region_lookup_unknown [OF this] show ?thesis by (simp add: mk_flow_def)
next
  case True
  with assms have "f_seller_region row \<notin> known_regions"
    by blast
  from region_lookup_unknown [OF this] show ?thesis
    by (simp add: mk_flow_def split: sum.splits)
qed

lemma mk_flow_known:
  assumes "f_buyer_region row \<in> known_regions"
    and "f_seller_region row \<in> known_regions"
    and "0 < f_transaction_id row"
  shows "\<exists>fl. mk_flow row = Inr fl"
proof -
  from region_lookup_known [OF assms(1)] obtain sc where
    "region_lookup (f_buyer_region row) = Inr sc" by blast
  moreover from region_lookup_known [OF assms(2)] obtain tc where
    "region_lookup (f_seller_region row) = Inr tc" by blast
  ultimately show ?thesis using assms(3) by (simp add: mk_flow_def int_div_def)
qed

lemma geo_export_flow_data:
  "geo_export txns = Inl e \<longleftrightarrow> flow_data txns = Inl e"
  "geo_export txns = Inr gv \<Longrightarrow> flow_data txns = Inr (gv_flows gv)"
  "flow_data txns = Inr fd \<Longrightarrow> \<exists>gv. geo_export txns = Inr gv \<and> gv_flows gv = fd"
  by (auto simp: geo_export_def split: sum.splits)

lemma flows_empty_if_dropped:
  assumes "\<forall>t\<in>set txns. buyer_region t = None \<or> seller_region t = None \<or>
                         marketplace t = None \<or> buyer_region t = seller_region t"
  shows "flows txns = []"
proof (rule ccontr)
  assume "flows txns \<noteq> []"
  then obtain row where "row \<in> set (flows txns)" by (cases "flows txns") auto
  then have "(f_buyer_region row, f_seller_region row, f_marketplace row)
             \<in> set (map (\<lambda>row. (f_buyer_region row, f_seller_region row, f_marketplace row))
                      (flows txns))"
    by simp
  then obtain t where "t \<in> set txns" "f_buyer_region row \<noteq> f_seller_region row"
    "buyer_region t = Some (f_buyer_region row)" "seller_region t = Some (f_seller_region row)"
    "marketplace t = Some (f_marketplace row)"
    unfolding flows_keys by blast
  with assms show False by force
qed

text \<open>
  Claim C5, as the code has it. The flow groups are the triples of a buyer region, a
  different seller region and a marketplace that some row of the ledger holds with all
  three cells present. A row with a missing region or marketplace cell is left out of
  the grouping and raises nothing: a ledger of such rows and of trades within one region
  yields the view, with no flow. If a flow group names a region outside the five of the
  table (\<open>known_regions\<close>), that is, if some row of the ledger with its three cells
  present trades between two different regions of which one is outside the table, the
  view ends in a \<^verbatim>\<open>KeyError\<close> for an unknown region code and emits nothing. If all
  flow groups name known regions the view is produced, with
  one flow per group in group order. Every flow that is emitted carries the table's
  entries for its source and its target.
\<close>

theorem geo_flow_region_lookup:
  "(\<forall>b s m.
      (b, s, m) \<in> set (map (\<lambda>row. (f_buyer_region row, f_seller_region row, f_marketplace row))
                         (flows txns))
      \<longleftrightarrow> b \<noteq> s \<and> (\<exists>t\<in>set txns. buyer_region t = Some b \<and> seller_region t = Some s \<and>
                                   marketplace t = Some m)) \<and>
   ((\<forall>t\<in>set txns. buyer_region t = None \<or> seller_region t = None \<or>
                   marketplace t = None \<or> buyer_region t = seller_region t)
    \<longrightarrow> (\<exists>gv. geo_export txns = Inr gv \<and> gv_flows gv = [])) \<and>
   ((\<exists>t\<in>set txns. \<exists>b s.
       buyer_region t = Some b \<and> seller_region t = Some s \<and> marketplace t \<noteq> None \<and>
       b \<noteq> s \<and> (b \<notin> known_regions \<or> s \<notin> known_regions))
    \<longrightarrow> (\<exists>k. geo_export txns = Inl (KeyError k) \<and>
             k \<notin> known_regions)) \<and>
   ((\<exists>row\<in>set (flows txns).
       f_buyer_region row \<notin> known_regions \<or>
       f_seller_region row \<notin> known_regions)
    \<longrightarrow> (\<exists>k. geo_export txns = Inl (KeyError k) \<and>
             k \<notin> known_regions)) \<and>
   ((\<forall>row\<in>set (flows txns).
       f_buyer_region row \<in> known_regions \<and>
       f_seller_region row \<in> known_regions)
    \<longrightarrow> (\<exists>gv. geo_export txns = Inr gv \<and>
             map (\<lambda>fl. (fl_source fl, fl_target fl, fl_marketplace fl)) (gv_flows gv)
               = map (\<lambda>row. (f_buyer_region row, f_seller_region row, f_marketplace row))
                   (flows txns))) \<and>
   (\<forall>gv fl. geo_export txns = Inr gv \<and> fl \<in> set (gv_flows gv)
      \<longrightarrow> map_of region_coords (fl_source fl) = Some (fl_source_coords fl) \<and>
          map_of region_coords (fl_target fl) = Some (fl_target_coords fl))"
proof -
  have keys: "\<forall>b s m.
      (b, s, m) \<in> set (map (\<lambda>row. (f_buyer_region row, f_seller_region row, f_marketplace row))
                         (flows txns))
      \<longleftrightarrow> b \<noteq> s \<and> (\<exists>t\<in>set txns. buyer_region t = Some b \<and> seller_region t = Some s \<and>
                                   marketplace t = Some m)"
    by (intro allI) (rule flows_keys)
  have dropped: "(\<forall>t\<in>set txns. buyer_region t = None \<or> seller_region t = None \<or>
                   marketplace t = None \<or> buyer_region t = seller_region t)
    \<longrightarrow> (\<exists>gv. geo_export txns = Inr gv \<and> gv_flows gv = [])"
  proof
    assume "\<forall>t\<in>set txns. buyer_region t = None \<or> seller_region t = None \<or>
                   marketplace t = None \<or> buyer_region t = seller_region t"
    then have "flows txns = []" by (rule flows_empty_if_dropped)
    then have "flow_data txns = Inr []" by (simp add: flow_data_def)
    then show "\<exists>gv. geo_export txns = Inr gv \<and> gv_flows gv = []"
      by (rule geo_export_flow_data(3))
  qed
  have unknown: "(\<exists>row\<in>set (flows txns).
       f_buyer_region row \<notin> known_regions \<or>
       f_seller_region row \<notin> known_regions)
    \<longrightarrow> (\<exists>k. geo_export txns = Inl (KeyError k) \<and>
             k \<notin> known_regions)"
  proof
    assume "\<exists>row\<in>set (flows txns).
       f_buyer_region row \<notin> known_regions \<or>
       f_seller_region row \<notin> known_regions"
    then obtain row where row: "row \<in> set (flows txns)" and
      unk: "f_buyer_region row \<notin> known_regions \<or>
         f_seller_region row \<notin> known_regions"
      by blast
    from mk_flow_unknown [OF unk] obtain e0 where "mk_flow row = Inl e0" by blast
    from traverse_fails [of row "flows txns" mk_flow e0, OF row this]
    obtain e where e: "flow_data txns = Inl e"
      unfolding flow_data_def by blast
    then have "\<exists>x\<in>set (flows txns). mk_flow x = Inl e"
      unfolding flow_data_def by (rule traverse_Inl)
    then obtain row' where row': "row' \<in> set (flows txns)" "mk_flow row' = Inl e"
      by blast
    from mk_flow_Inl [OF row'(2) flows_count_positive [OF row'(1)]] obtain k where
      "e = KeyError k" "k \<notin> known_regions" by blast
    with e show "\<exists>k. geo_export txns = Inl (KeyError k) \<and>
               k \<notin> known_regions"
      by (simp add: geo_export_flow_data(1))
  qed
  have ledger: "(\<exists>t\<in>set txns. \<exists>b s.
       buyer_region t = Some b \<and> seller_region t = Some s \<and> marketplace t \<noteq> None \<and>
       b \<noteq> s \<and> (b \<notin> known_regions \<or> s \<notin> known_regions))
    \<longrightarrow> (\<exists>k. geo_export txns = Inl (KeyError k) \<and>
             k \<notin> known_regions)"
  proof
    assume "\<exists>t\<in>set txns. \<exists>b s.
       buyer_region t = Some b \<and> seller_region t = Some s \<and> marketplace t \<noteq> None \<and>
       b \<noteq> s \<and> (b \<notin> known_regions \<or> s \<notin> known_regions)"
    then obtain t b s m where t: "t \<in> set txns" "buyer_region t = Some b"
      "seller_region t = Some s" "marketplace t = Some m" "b \<noteq> s"
      and unk: "b \<notin> known_regions \<or> s \<notin> known_regions"
      by auto
    from t have "b \<noteq> s \<and> (\<exists>t\<in>set txns. buyer_region t = Some b \<and> seller_region t = Some s \<and>
                                   marketplace t = Some m)"
      by auto
    then have "(b, s, m) \<in> set (map (\<lambda>row. (f_buyer_region row, f_seller_region row, f_marketplace row))
                         (flows txns))"
      by (rule iffD2 [OF flows_keys])
    then obtain row where "row \<in> set (flows txns)" "f_buyer_region row = b"
      "f_seller_region row = s"
      by auto
    with unk have "\<exists>row\<in>set (flows txns).
       f_buyer_region row \<notin> known_regions \<or>
       f_seller_region row \<notin> known_regions"
      by auto
    with unknown show "\<exists>k. geo_export txns = Inl (KeyError k) \<and>
             k \<notin> known_regions"
      by (rule mp)
  qed
  have known: "(\<forall>row\<in>set (flows txns).
       f_buyer_region row \<in> known_regions \<and>
       f_seller_region row \<in> known_regions)
    \<longrightarrow> (\<exists>gv. geo_export txns = Inr gv \<and>
             map (\<lambda>fl. (fl_source fl, fl_target fl, fl_marketplace fl)) (gv_flows gv)
               = map (\<lambda>row. (f_buyer_region row, f_seller_region row, f_marketplace row))
                   (flows txns))"
  proof
    assume known: "\<forall>row\<in>set (flows txns).
         f_buyer_region row \<in> known_regions \<and>
         f_seller_region row \<in> known_regions"
    have "\<exists>fl. mk_flow row = Inr fl" if "row \<in> set (flows txns)" for row
      using known that flows_count_positive [OF that] by (intro mk_flow_known) simp_all
    from traverse_total [of "flows txns" mk_flow, OF this] obtain fd where
      fd: "flow_data txns = Inr fd" unfolding flow_data_def by blast
    then have eq: "map mk_flow (flows txns) = map Inr fd"
      unfolding flow_data_def by (rule traverse_Inr)
    then have len: "length fd = length (flows txns)" by (metis length_map)
    have "map (\<lambda>fl. (fl_source fl, fl_target fl, fl_marketplace fl)) fd
          = map (\<lambda>row. (f_buyer_region row, f_seller_region row, f_marketplace row)) (flows txns)"
    proof (rule nth_equalityI)
      show "length (map (\<lambda>fl. (fl_source fl, fl_target fl, fl_marketplace fl)) fd)
            = length (map (\<lambda>row. (f_buyer_region row, f_seller_region row, f_marketplace row)) (flows txns))"
        using len by simp
    next
      fix i assume "i < length (map (\<lambda>fl. (fl_source fl, fl_target fl, fl_marketplace fl)) fd)"
      then have i: "i < length fd" "i < length (flows txns)" using len by simp_all
      have "map mk_flow (flows txns) ! i = map Inr fd ! i" using eq by simp
      with i have "mk_flow (flows txns ! i) = Inr (fd ! i)" by simp
      from mk_flow_Inr [OF this] i
      show "map (\<lambda>fl. (fl_source fl, fl_target fl, fl_marketplace fl)) fd ! i
            = map (\<lambda>row. (f_buyer_region row, f_seller_region row, f_marketplace row)) (flows txns) ! i"
        by simp
    qed
    with geo_export_flow_data(3) [OF fd]
    show "\<exists>gv. geo_export txns = Inr gv \<and>
               map (\<lambda>fl. (fl_source fl, fl_target fl, fl_marketplace fl)) (gv_flows gv)
                 = map (\<lambda>row. (f_buyer_region row, f_seller_region row, f_marketplace row))
                     (flows txns)"
      by auto
  qed
  have entries: "\<forall>gv fl. geo_export txns = Inr gv \<and> fl \<in> set (gv_flows gv)
      \<longrightarrow> map_of region_coords (fl_source fl) = Some (fl_source_coords fl) \<and>
          map_of region_coords (fl_target fl) = Some (fl_target_coords fl)"
  proof (intro allI impI)
    fix gv fl
    assume a: "geo_export txns = Inr gv \<and> fl \<in> set (gv_flows gv)"
    then have "flow_data txns = Inr (gv_flows gv)" by (simp add: geo_export_flow_data(2))
    then have "map mk_flow (flows txns) = map Inr (gv_flows gv)"
      unfolding flow_data_def by (rule traverse_Inr)
    moreover from a have "Inr fl \<in> set (map Inr (gv_flows gv))" by simp
    ultimately have "Inr fl \<in> set (map mk_flow (flows txns))" by simp
    then obtain row where "mk_flow row = Inr fl" by auto
    from mk_flow_Inr [OF this]
    show "map_of region_coords (fl_source fl) = Some (fl_source_coords fl) \<and>
          map_of region_coords (fl_target fl) = Some (fl_target_coords fl)"
      by blast
  qed
  show ?thesis
    by (rule conjI [OF keys conjI [OF dropped conjI [OF ledger
          conjI [OF unknown conjI [OF known entries]]]]])
qed

theorem geo_flow_region_lookup_witness:
  "geo_export unknown_region_ledger = Inl (KeyError ''MARS'') \<and>
   ''MARS'' \<notin> known_regions \<and>
   isl (geo_export unknown_region_ledger) \<and>
   (\<exists>gv. geo_export two_flow_ledger = Inr gv \<and>
      map (\<lambda>fl. (fl_source fl, fl_target fl, fl_marketplace fl)) (gv_flows gv)
        = [(''EU'', ''OCE'', ''Shadow''), (''SEA'', ''EU'', ''Prime'')] \<and>
      list_all (\<lambda>fl. map_of region_coords (fl_source fl) = Some (fl_source_coords fl) \<and>
                     map_of region_coords (fl_target fl) = Some (fl_target_coords fl))
        (gv_flows gv)) \<and>
   (''EU'', ''OCE'', ''Shadow'')
     \<in> set (map (\<lambda>row. (f_buyer_region row, f_seller_region row, f_marketplace row))
              (flows two_flow_ledger)) \<and>
   (\<exists>gv. geo_export missing_region_ledger = Inr gv \<and> gv_flows gv = [])"
proof -
  note T1 = geo_flow_region_lookup [of unknown_region_ledger]
  note T2 = geo_flow_region_lookup [of two_flow_ledger]
  note T3 = geo_flow_region_lookup [of missing_region_ledger]
  have "list_ex (\<lambda>row. f_buyer_region row \<notin> known_regions \<or> f_seller_region row \<notin> known_regions)
          (flows unknown_region_ledger)"
    by code_simp
  then have bad: "\<exists>row\<in>set (flows unknown_region_ledger).
       f_buyer_region row \<notin> known_regions \<or> f_seller_region row \<notin> known_regions"
    by (simp only: list_ex_iff)
  from T1 have "(\<exists>row\<in>set (flows unknown_region_ledger).
       f_buyer_region row \<notin> known_regions \<or> f_seller_region row \<notin> known_regions)
    \<longrightarrow> (\<exists>k. geo_export unknown_region_ledger = Inl (KeyError k) \<and> k \<notin> known_regions)"
    by (elim conjE)
  from this bad have ex: "\<exists>k. geo_export unknown_region_ledger = Inl (KeyError k) \<and> k \<notin> known_regions"
    by (rule mp)
  have "list_ex (\<lambda>t. buyer_region t = Some ''EU'' \<and> seller_region t = Some ''MARS'' \<and>
                     marketplace t \<noteq> None \<and> ''EU'' \<noteq> ''MARS'' \<and>
                     (''EU'' \<notin> known_regions \<or> ''MARS'' \<notin> known_regions))
          unknown_region_ledger"
    by code_simp
  then have "\<exists>t\<in>set unknown_region_ledger.
       buyer_region t = Some ''EU'' \<and> seller_region t = Some ''MARS'' \<and>
       marketplace t \<noteq> None \<and> ''EU'' \<noteq> ''MARS'' \<and>
       (''EU'' \<notin> known_regions \<or> ''MARS'' \<notin> known_regions)"
    by (simp only: list_ex_iff)
  then obtain t0 where t0: "t0 \<in> set unknown_region_ledger" and
    f0: "buyer_region t0 = Some ''EU'' \<and> seller_region t0 = Some ''MARS'' \<and>
       marketplace t0 \<noteq> None \<and> ''EU'' \<noteq> ''MARS'' \<and>
       (''EU'' \<notin> known_regions \<or> ''MARS'' \<notin> known_regions)"
    by (elim bexE)
  from f0 have "\<exists>b s. buyer_region t0 = Some b \<and> seller_region t0 = Some s \<and>
       marketplace t0 \<noteq> None \<and> b \<noteq> s \<and> (b \<notin> known_regions \<or> s \<notin> known_regions)"
    by (intro exI)
  with t0 have sale: "\<exists>t\<in>set unknown_region_ledger. \<exists>b s.
       buyer_region t = Some b \<and> seller_region t = Some s \<and> marketplace t \<noteq> None \<and>
       b \<noteq> s \<and> (b \<notin> known_regions \<or> s \<notin> known_regions)"
    by (rule rev_bexI)
  from T1 have "(\<exists>t\<in>set unknown_region_ledger. \<exists>b s.
       buyer_region t = Some b \<and> seller_region t = Some s \<and> marketplace t \<noteq> None \<and>
       b \<noteq> s \<and> (b \<notin> known_regions \<or> s \<notin> known_regions))
    \<longrightarrow> (\<exists>k. geo_export unknown_region_ledger = Inl (KeyError k) \<and> k \<notin> known_regions)"
    by (elim conjE)
  from this sale
  have ex': "\<exists>k. geo_export unknown_region_ledger = Inl (KeyError k) \<and> k \<notin> known_regions"
    by (rule mp)
  then have fails: "isl (geo_export unknown_region_ledger)"
    by (elim exE conjE) simp
  have ev: "geo_export unknown_region_ledger = Inl (KeyError ''MARS'')" by code_simp
  from ex have mars: "''MARS'' \<notin> known_regions"
    unfolding ev by (elim exE conjE) simp
  have "list_all (\<lambda>row. f_buyer_region row \<in> known_regions \<and> f_seller_region row \<in> known_regions)
          (flows two_flow_ledger)"
    by code_simp
  then have good: "\<forall>row\<in>set (flows two_flow_ledger).
       f_buyer_region row \<in> known_regions \<and> f_seller_region row \<in> known_regions"
    by (simp only: list_all_iff)
  from T2 have "(\<forall>row\<in>set (flows two_flow_ledger).
       f_buyer_region row \<in> known_regions \<and> f_seller_region row \<in> known_regions)
    \<longrightarrow> (\<exists>gv. geo_export two_flow_ledger = Inr gv \<and>
             map (\<lambda>fl. (fl_source fl, fl_target fl, fl_marketplace fl)) (gv_flows gv)
               = map (\<lambda>row. (f_buyer_region row, f_seller_region row, f_marketplace row))
                   (flows two_flow_ledger))"
    by (elim conjE)
  from this good obtain gv where
    gv: "geo_export two_flow_ledger = Inr gv"
        "map (\<lambda>fl. (fl_source fl, fl_target fl, fl_marketplace fl)) (gv_flows gv)
           = map (\<lambda>row. (f_buyer_region row, f_seller_region row, f_marketplace row))
               (flows two_flow_ledger)"
    by (elim impE exE conjE)
  have keys: "map (\<lambda>row. (f_buyer_region row, f_seller_region row, f_marketplace row))
               (flows two_flow_ledger)
              = [(''EU'', ''OCE'', ''Shadow''), (''SEA'', ''EU'', ''Prime'')]"
    by code_simp
  from T2 have "\<forall>gv fl. geo_export two_flow_ledger = Inr gv \<and> fl \<in> set (gv_flows gv)
      \<longrightarrow> map_of region_coords (fl_source fl) = Some (fl_source_coords fl) \<and>
          map_of region_coords (fl_target fl) = Some (fl_target_coords fl)"
    by (elim conjE)
  with gv(1) have "\<forall>fl\<in>set (gv_flows gv).
      map_of region_coords (fl_source fl) = Some (fl_source_coords fl) \<and>
      map_of region_coords (fl_target fl) = Some (fl_target_coords fl)"
    by blast
  then have all: "list_all (\<lambda>fl. map_of region_coords (fl_source fl) = Some (fl_source_coords fl) \<and>
                     map_of region_coords (fl_target fl) = Some (fl_target_coords fl))
        (gv_flows gv)"
    by (simp only: list_all_iff)
  from gv(2) have keys': "map (\<lambda>fl. (fl_source fl, fl_target fl, fl_marketplace fl)) (gv_flows gv)
        = [(''EU'', ''OCE'', ''Shadow''), (''SEA'', ''EU'', ''Prime'')]"
    unfolding keys .
  from gv(1) keys' all have two: "\<exists>gv. geo_export two_flow_ledger = Inr gv \<and>
      map (\<lambda>fl. (fl_source fl, fl_target fl, fl_marketplace fl)) (gv_flows gv)
        = [(''EU'', ''OCE'', ''Shadow''), (''SEA'', ''EU'', ''Prime'')] \<and>
      list_all (\<lambda>fl. map_of region_coords (fl_source fl) = Some (fl_source_coords fl) \<and>
                     map_of region_coords (fl_target fl) = Some (fl_target_coords fl))
        (gv_flows gv)"
    by (intro conjI exI [of _ gv])
  have "list_ex (\<lambda>t. buyer_region t = Some ''EU'' \<and> seller_region t = Some ''OCE'' \<and>
                     marketplace t = Some ''Shadow'') two_flow_ledger"
    by code_simp
  then have row: "\<exists>t\<in>set two_flow_ledger. buyer_region t = Some ''EU'' \<and>
                     seller_region t = Some ''OCE'' \<and> marketplace t = Some ''Shadow''"
    by (simp only: list_ex_iff)
  have ne: "''EU'' \<noteq> ''OCE''" by simp
  from T2 have "\<forall>b s m.
      (b, s, m) \<in> set (map (\<lambda>row. (f_buyer_region row, f_seller_region row, f_marketplace row))
                         (flows two_flow_ledger))
      \<longleftrightarrow> b \<noteq> s \<and> (\<exists>t\<in>set two_flow_ledger. buyer_region t = Some b \<and>
                        seller_region t = Some s \<and> marketplace t = Some m)"
    by (rule conjunct1)
  then have "(''EU'', ''OCE'', ''Shadow'')
               \<in> set (map (\<lambda>row. (f_buyer_region row, f_seller_region row, f_marketplace row))
                         (flows two_flow_ledger))
      \<longleftrightarrow> ''EU'' \<noteq> ''OCE'' \<and> (\<exists>t\<in>set two_flow_ledger. buyer_region t = Some ''EU'' \<and>
                        seller_region t = Some ''OCE'' \<and> marketplace t = Some ''Shadow'')"
    by (elim allE)
  from iffD2 [OF this conjI [OF ne row]]
  have mem: "(''EU'', ''OCE'', ''Shadow'')
               \<in> set (map (\<lambda>row. (f_buyer_region row, f_seller_region row, f_marketplace row))
                         (flows two_flow_ledger))" .
  have "list_all (\<lambda>t. buyer_region t = None \<or> seller_region t = None \<or>
                      marketplace t = None \<or> buyer_region t = seller_region t)
          missing_region_ledger"
    by code_simp
  then have miss: "\<forall>t\<in>set missing_region_ledger. buyer_region t = None \<or> seller_region t = None \<or>
                      marketplace t = None \<or> buyer_region t = seller_region t"
    by (simp only: list_all_iff)
  from T3 have "(\<forall>t\<in>set missing_region_ledger. buyer_region t = None \<or> seller_region t = None \<or>
                   marketplace t = None \<or> buyer_region t = seller_region t)
    \<longrightarrow> (\<exists>gv. geo_export missing_region_ledger = Inr gv \<and> gv_flows gv = [])"
    by (elim conjE)
  from this miss have none: "\<exists>gv. geo_export missing_region_ledger = Inr gv \<and> gv_flows gv = []"
    by (rule mp)
  show ?thesis
    by (rule conjI [OF ev conjI [OF mars conjI [OF fails conjI [OF two conjI [OF mem none]]]]])
qed

text \<open>
  Claim C5, as stated, fails. The one row of the ledger names the seller region
  \<^verbatim>\<open>NA\<close>, which is not one of the five codes. \<^verbatim>\<open>read_csv\<close> takes the field for a missing
  value and the grouping leaves the row out: the view is produced with no flow, no
  error is raised and the script writes all its ten files.
\<close>

theorem geo_missing_region_counterexample:
  "map seller_region missing_region_ledger = [read_cell ''NA''] \<and>
   read_cell ''NA'' = None \<and>
   ''NA'' \<notin> known_regions \<and>
   map buyer_region missing_region_ledger = [Some ''EU''] \<and>
   map_sum id gv_flows (geo_export missing_region_ledger) = Inr [] \<and>
   snd (run_script zero_draws [] missing_region_ledger) = None \<and>
   length (fst (run_script zero_draws [] missing_region_ledger)) = 10"
  by code_simp

section \<open>The ring detector\<close>

lemma ring_edges_loop_filter:
  "ring_edges_loop ru txns
   = map mk_ring_edge (filter (\<lambda>t. buyer_id t \<in> set ru \<and> seller_id t \<in> set ru) txns)"
  by (induction txns) simp_all

lemma ring_edges_filter:
  "ring_edges txns
   = map mk_ring_edge
       (filter (\<lambda>t. buyer_id t \<in> set (ring_users txns) \<and> seller_id t \<in> set (ring_users txns)) txns)"
  by (simp add: ring_edges_def ring_txns_def ring_edges_loop_filter)

lemma ring_frequency_count:
  "count_list (map buyer_id (wash_trades txns) @ map seller_id (wash_trades txns)) u
   = ring_frequency txns u"
  by (simp add: ring_frequency_def count_list_map_filter)

text \<open>
  Claim C6. The edges of the ring view are the first 200, in ledger order, of the
  transactions whose buyer and seller are both ring users, so every emitted edge has
  both endpoints among the ring users. The ring users are distinct users that appear in
  rows labelled as wash trades, 20 of them or all when there are fewer, and no user
  left out appears in such rows more often than a user taken.
\<close>

theorem ring_edges_induced_prefix:
  "rv_edges (ring_export txns)
     = take 200 (map mk_ring_edge
         (filter (\<lambda>t. buyer_id t \<in> set (ring_users txns) \<and> seller_id t \<in> set (ring_users txns))
            txns)) \<and>
   (\<forall>e\<in>set (rv_edges (ring_export txns)).
      re_source e \<in> set (ring_users txns) \<and> re_target e \<in> set (ring_users txns)) \<and>
   distinct (ring_users txns) \<and>
   length (ring_users txns)
     = min 20 (card (buyer_id ` set (wash_trades txns) \<union> seller_id ` set (wash_trades txns))) \<and>
   (\<forall>u\<in>set (ring_users txns).
      0 < ring_frequency txns u \<and>
      (\<forall>v. v \<notin> set (ring_users txns) \<longrightarrow> ring_frequency txns v \<le> ring_frequency txns u))"
proof (intro conjI ballI allI impI)
  let ?xs = "map buyer_id (wash_trades txns) @ map seller_id (wash_trades txns)"
  have ru: "ring_users txns = head_index 20 (value_counts ?xs)"
    by (simp add: ring_users_def)
  show edges: "rv_edges (ring_export txns)
     = take 200 (map mk_ring_edge
         (filter (\<lambda>t. buyer_id t \<in> set (ring_users txns) \<and> seller_id t \<in> set (ring_users txns))
            txns))"
    by (simp add: ring_export_def ring_edges_filter)
  show "distinct (ring_users txns)" unfolding ru by (rule distinct_head_index)
  show "length (ring_users txns)
     = min 20 (card (buyer_id ` set (wash_trades txns) \<union> seller_id ` set (wash_trades txns)))"
    unfolding ru by (simp add: length_head_index)
  {
    fix e assume "e \<in> set (rv_edges (ring_export txns))"
    then have "e \<in> set (map mk_ring_edge
         (filter (\<lambda>t. buyer_id t \<in> set (ring_users txns) \<and> seller_id t \<in> set (ring_users txns))
            txns))"
      unfolding edges by (rule in_set_takeD)
    then obtain t where t: "e = mk_ring_edge t" "buyer_id t \<in> set (ring_users txns)"
      "seller_id t \<in> set (ring_users txns)"
      by auto
    show "re_source e \<in> set (ring_users txns)" using t by (simp add: mk_ring_edge_def)
    show "re_target e \<in> set (ring_users txns)" using t by (simp add: mk_ring_edge_def)
  }
  {
    fix u assume u: "u \<in> set (ring_users txns)"
    have "set (head_index 20 (value_counts ?xs)) \<subseteq> set ?xs"
      by (rule set_head_index_subset)
    from this u have "u \<in> set ?xs" unfolding ru by (rule subsetD)
    then have "count_list ?xs u \<noteq> 0" by (simp only: count_list_0_iff not_not)
    then have "0 < count_list ?xs u" by simp
    then show "0 < ring_frequency txns u" by (simp only: ring_frequency_count)
    fix v assume "v \<notin> set (ring_users txns)"
    with u have "count_list ?xs v \<le> count_list ?xs u"
      unfolding ru by (intro head_index_top)
    then show "ring_frequency txns v \<le> ring_frequency txns u"
      by (simp only: ring_frequency_count)
  }
qed

theorem ring_edges_induced_prefix_witness:
  "mk_ring_edge (ring_ledger ! 3) \<in> set (rv_edges (ring_export ring_ledger)) \<and>
   re_source (mk_ring_edge (ring_ledger ! 3)) \<in> set (ring_users ring_ledger) \<and>
   re_target (mk_ring_edge (ring_ledger ! 3)) \<in> set (ring_users ring_ledger) \<and>
   ''U1'' \<in> set (ring_users ring_ledger) \<and>
   ''U3'' \<notin> set (ring_users ring_ledger) \<and>
   ring_frequency ring_ledger ''U3'' \<le> ring_frequency ring_ledger ''U1''"
proof -
  note T = ring_edges_induced_prefix [of ring_ledger]
  have m: "mk_ring_edge (ring_ledger ! 3) \<in> set (rv_edges (ring_export ring_ledger))"
    by code_simp
  from T have "\<forall>e\<in>set (rv_edges (ring_export ring_ledger)).
      re_source e \<in> set (ring_users ring_ledger) \<and> re_target e \<in> set (ring_users ring_ledger)"
    by (elim conjE)
  from this m have ends: "re_source (mk_ring_edge (ring_ledger ! 3)) \<in> set (ring_users ring_ledger) \<and>
      re_target (mk_ring_edge (ring_ledger ! 3)) \<in> set (ring_users ring_ledger)"
    by (rule bspec)
  have u1: "''U1'' \<in> set (ring_users ring_ledger)" by code_simp
  have u3: "''U3'' \<notin> set (ring_users ring_ledger)" by code_simp
  from T have "\<forall>u\<in>set (ring_users ring_ledger).
      0 < ring_frequency ring_ledger u \<and>
      (\<forall>v. v \<notin> set (ring_users ring_ledger)
         \<longrightarrow> ring_frequency ring_ledger v \<le> ring_frequency ring_ledger u)"
    by (elim conjE)
  from this u1 have "0 < ring_frequency ring_ledger ''U1'' \<and>
      (\<forall>v. v \<notin> set (ring_users ring_ledger)
         \<longrightarrow> ring_frequency ring_ledger v \<le> ring_frequency ring_ledger ''U1'')"
    by (rule bspec)
  then have "\<forall>v. v \<notin> set (ring_users ring_ledger)
         \<longrightarrow> ring_frequency ring_ledger v \<le> ring_frequency ring_ledger ''U1''"
    by (rule conjunct2)
  then have "''U3'' \<notin> set (ring_users ring_ledger)
         \<longrightarrow> ring_frequency ring_ledger ''U3'' \<le> ring_frequency ring_ledger ''U1''"
    by (rule spec)
  from this u3 have "ring_frequency ring_ledger ''U3'' \<le> ring_frequency ring_ledger ''U1''"
    by (rule mp)
  with m ends u1 u3 show ?thesis by (intro conjI) (elim conjE, assumption)+
qed

section \<open>The dashboard sampler: the top anomalies\<close>










section \<open>The categories export\<close>

text \<open>
  Claim C10. The categories export of the dashboard is the per-category section of the
  statistics summary: the same keys, in the same order, each with the same entry.
\<close>

theorem categories_export_is_stats_section:
  "categories_export txns = sv_categories (stats_export txns) \<and>
   map fst (categories_export txns) = unique (map category txns) \<and>
   set (map fst (categories_export txns)) = set (map fst (sv_categories (stats_export txns))) \<and>
   (\<forall>cat. map_of (categories_export txns) cat = map_of (sv_categories (stats_export txns)) cat)"
  by (simp add: categories_export_def stats_export_def comp_def)

section \<open>Empty groups\<close>

text \<open>
  The timeline lists the anomaly types that the ledger names, and each of their days has
  a row, so none of its means is NaN.
\<close>

lemma timeline_means_defined:
  assumes "t \<in> set (temporal_data txns)"
  shows "t_avg_price t \<noteq> NaN \<and> t_avg_z_score t \<noteq> NaN \<and>
         (\<forall>d\<in>set (t_daily_counts t). d_intensity d \<noteq> NaN)"
proof -
  from assms obtain a where a: "a \<in> anomaly_label ` set (anomalies txns)"
    and t: "t = mk_temporal (price_int64 txns) (anomalies txns) a"
    by (auto simp: temporal_data_def)
  let ?type_data = "filter (\<lambda>t. anomaly_label t = a) (anomalies txns)"
  from a have ne: "?type_data \<noteq> []" by (auto simp: filter_empty_conv)
  have "d_intensity d \<noteq> NaN" if "d \<in> set (t_daily_counts t)" for d
  proof -
    from that obtain row where
      row: "row \<in> set (groupby (\<lambda>t. dt_day (timestamp t)) ?type_data)" and
      d: "d_intensity d = mean (map (\<lambda>t. \<bar>price_z t\<bar>) (snd row))"
      unfolding t by (auto simp: mk_temporal_def Let_def)
    from row have "snd row \<noteq> []" using groupby_nonempty [of "fst row" "snd row"] by simp
    then show ?thesis unfolding d by (simp add: mean_NaN_iff)
  qed
  with ne show ?thesis
    unfolding t by (simp add: mk_temporal_def Let_def mean_NaN_iff)
qed

text \<open>
  The marketplace view lists the three fixed marketplaces. The anomaly rate of one of
  them lies between 0 and 1 exactly when the ledger has a row for it, and is NaN
  otherwise. The view itself never raises: each sample is bounded by its own subset.
\<close>

lemma mk_marketplace_Inr:
  "\<exists>m. mk_marketplace txns arg = Inr m \<and> m_name m = fst (snd arg) \<and>
       ms_anomaly_rate (m_stats m)
         = bool_mean (map is_anomaly (filter (\<lambda>t. marketplace t = Some (fst (snd arg))) txns))"
  by (simp add: mk_marketplace_def Let_def sample_def)

lemma marketplace_export_total: "\<not> isl (marketplace_export rnd txns)"
proof -
  have "\<exists>md. marketplace_data rnd txns = Inr md"
    unfolding marketplace_data_def
    by (rule traverse_total) (use mk_marketplace_Inr in blast)
  then show ?thesis by (auto simp: marketplace_export_def)
qed

lemma marketplace_rate_in_unit_iff:
  assumes "marketplace_export rnd txns = Inr v" and "m \<in> set (marketplaces v)"
  shows "(in_unit (ms_anomaly_rate (m_stats m))
            \<longleftrightarrow> (\<exists>t\<in>set txns. marketplace t = Some (m_name m))) \<and>
         (ms_anomaly_rate (m_stats m) = NaN
            \<longleftrightarrow> \<not> (\<exists>t\<in>set txns. marketplace t = Some (m_name m)))"
proof -
  let ?args = "map (\<lambda>(i, mc). (rnd i, mc)) (enumerate 1 marketplace_centers)"
  from assms(1) have md: "marketplace_data rnd txns = Inr (marketplaces v)"
    by (auto simp: marketplace_export_def split: sum.splits)
  then have "map (mk_marketplace txns) ?args = map Inr (marketplaces v)"
    unfolding marketplace_data_def by (rule traverse_Inr)
  moreover from assms(2) have "Inr m \<in> set (map Inr (marketplaces v))" by simp
  ultimately have "Inr m \<in> set (map (mk_marketplace txns) ?args)" by simp
  then obtain arg where arg: "mk_marketplace txns arg = Inr m" by auto
  from mk_marketplace_Inr [of txns arg] arg have
    rate: "ms_anomaly_rate (m_stats m)
           = bool_mean (map is_anomaly (filter (\<lambda>t. marketplace t = Some (m_name m)) txns))"
    by auto
  show ?thesis
    unfolding rate by (auto simp: in_unit_bool_mean_iff bool_mean_NaN_iff filter_empty_conv)
qed

text \<open>
  Claim C4. No grouping is to emit NaN for a mean or a rate of an empty subset; a
  marketplace of the fixed set without transactions is named in particular. The
  marketplace view loops over the three fixed marketplaces whether or not the ledger has
  rows for them: on a ledger that trades on Prime only, Shadow and Arcade are emitted
  with 0 transactions and the anomaly rate NaN. The groupings of the other views are
  built from the keys that the ledger names and have no empty group for a key that is
  present, as the lemmas above and below show.
\<close>

theorem empty_marketplace_rate_is_nan:
  "map_sum id
     (\<lambda>v. map (\<lambda>m. (m_name m, ms_total_transactions (m_stats m), ms_anomaly_rate (m_stats m)))
            (marketplaces v))
     (marketplace_export (\<lambda>_ _. 0) prime_only_ledger)
   = Inr [(''Prime'', 1, Float 0), (''Shadow'', 0, NaN), (''Arcade'', 0, NaN)]"
  by code_simp

section \<open>Ranges of rates and intensities\<close>

text \<open>
  The intensity of an edge is the clamped half of a mean of absolute values over a
  group that has a row, so it lies between 0 and 1.
\<close>

lemma edge_intensity_in_unit:
  assumes "edge_data txns = Inr es" and "e \<in> set es"
  shows "in_unit (e_intensity e)"
proof -
  from assms obtain kg where
    kg: "kg \<in> set (groupby (\<lambda>t. (buyer_id t, seller_id t)) (network_txns txns))" and
    e: "e = mk_edge (edge_group_of (price_int64 txns) kg)"
    unfolding edge_data_closed by auto
  from kg have "snd kg \<noteq> []" using groupby_nonempty [of "fst kg" "snd kg"] by simp
  from mean_abs_nonneg [OF this, of price_z] obtain m where
    "mean (map (\<lambda>t. \<bar>price_z t\<bar>) (snd kg)) = Float m" "0 \<le> m" by blast
  then show ?thesis
    by (simp add: e mk_edge_def edge_group_of_def fdiv_def min_one_def in_unit_def)
qed

text \<open>The intensity of a particle lies between 0 and 1, and only a flare deviates by more than 2.\<close>

lemma particle_intensity_in_unit:
  "0 \<le> p_intensity (mk_particle t) \<and> p_intensity (mk_particle t) \<le> 1 \<and>
   (p_is_flare (mk_particle t) \<longleftrightarrow> 2 < \<bar>p_z_score (mk_particle t)\<bar>)"
  by (simp add: mk_particle_def Let_def)

lemma particles_in_unit:
  assumes "particle_export rnd txns = Inr pv" and "p \<in> set (particles pv)"
  shows "0 \<le> p_intensity p \<and> p_intensity p \<le> 1 \<and> (p_is_flare p \<longleftrightarrow> 2 < \<bar>p_z_score p\<bar>)"
proof -
  from assms obtain t where "p = mk_particle t"
    by (auto simp: particle_export_def particle_data_def Let_def split: sum.splits)
  then show ?thesis by (simp only: particle_intensity_in_unit)
qed

text \<open>
  The anomaly rate of a flow is the share of anomalous rows in a group that has a row;
  it lies between 0 and 1 and the intensity equals it.
\<close>

lemma flows_anomaly_le:
  assumes "row \<in> set (flows txns)"
  shows "f_is_anomaly row \<le> f_transaction_id row"
proof -
  from assms obtain kg where "row = agg_flow (price_int64 txns) kg" by (rule flows_member)
  then show ?thesis by (simp add: agg_flow_def bool_sum_filter)
qed

lemma mk_flow_rate:
  assumes "mk_flow row = Inr fl"
  shows "0 < f_transaction_id row \<and>
         fl_anomaly_rate fl = of_nat (f_is_anomaly row) / of_nat (f_transaction_id row) \<and>
         fl_intensity fl = min (fl_anomaly_rate fl) 1"
  using assms by (auto simp: mk_flow_def int_div_def split: sum.splits if_splits)

lemma flow_rate_in_unit:
  assumes "flow_data txns = Inr fd" and "fl \<in> set fd"
  shows "0 \<le> fl_anomaly_rate fl \<and> fl_anomaly_rate fl \<le> 1 \<and>
         fl_intensity fl = fl_anomaly_rate fl"
proof -
  from assms(1) have "map mk_flow (flows txns) = map Inr fd"
    unfolding flow_data_def by (rule traverse_Inr)
  moreover from assms(2) have "Inr fl \<in> set (map Inr fd)" by simp
  ultimately have "Inr fl \<in> set (map mk_flow (flows txns))" by simp
  then obtain row where row: "row \<in> set (flows txns)" "mk_flow row = Inr fl" by auto
  from mk_flow_rate [OF row(2)] have
    pos: "0 < f_transaction_id row" and
    rate: "fl_anomaly_rate fl = of_nat (f_is_anomaly row) / of_nat (f_transaction_id row)" and
    int: "fl_intensity fl = min (fl_anomaly_rate fl) 1"
    by simp_all
  from flows_anomaly_le [OF row(1)] pos have "fl_anomaly_rate fl \<le> 1"
    unfolding rate by simp
  moreover have "0 \<le> fl_anomaly_rate fl" unfolding rate by simp
  ultimately show ?thesis using int by simp
qed

text \<open>
  The statistics summary lists the marketplaces and the categories that the ledger
  names, so each of its rates is the share over a subset that has a row. A missing
  marketplace cell is listed too, as the key NaN, which no row equals: its rate is NaN.
\<close>

lemma eq_cell_None: "eq_cell c None = False"
  by (cases c) (simp_all add: eq_cell_def)

lemma stats_rates_in_unit:
  "(\<forall>m\<in>set (sv_marketplaces (stats_export txns)).
      (s_name m \<noteq> None \<longrightarrow> in_unit (s_anomaly_rate m)) \<and>
      (s_name m = None \<longrightarrow> s_anomaly_rate m = NaN)) \<and>
   (\<forall>c\<in>set (sv_categories (stats_export txns)). in_unit (c_anomaly_rate (snd c)))"
proof (intro conjI ballI impI)
  fix m assume m: "m \<in> set (sv_marketplaces (stats_export txns))" and "s_name m \<noteq> None"
  then obtain x where k: "x \<in> set txns" "marketplace x \<noteq> None"
    "s_anomaly_rate m
     = bool_mean (map is_anomaly (filter (\<lambda>t. eq_cell (marketplace t) (marketplace x)) txns))"
    by (auto simp: stats_export_def)
  from k(1,2) have "map is_anomaly (filter (\<lambda>t. eq_cell (marketplace t) (marketplace x)) txns) \<noteq> []"
    by (auto simp: filter_empty_conv eq_cell_def)
  then show "in_unit (s_anomaly_rate m)" unfolding k(3) by (rule bool_mean_in_unit)
next
  fix m assume "m \<in> set (sv_marketplaces (stats_export txns))" and "s_name m = None"
  then have "s_anomaly_rate m
     = bool_mean (map is_anomaly (filter (\<lambda>t. eq_cell (marketplace t) None) txns))"
    by (auto simp: stats_export_def)
  then show "s_anomaly_rate m = NaN"
    by (simp add: eq_cell_None bool_mean_NaN_iff)
next
  fix c assume "c \<in> set (sv_categories (stats_export txns))"
  then obtain x where k: "x \<in> set txns"
    "c_anomaly_rate (snd c) = bool_mean (map is_anomaly (filter (\<lambda>t. category t = category x) txns))"
    by (auto simp: stats_export_def)
  from k(1) have "map is_anomaly (filter (\<lambda>t. category t = category x) txns) \<noteq> []"
    by (auto simp: filter_empty_conv)
  then show "in_unit (c_anomaly_rate (snd c))" unfolding k(2) by (rule bool_mean_in_unit)
qed

text \<open>
  Claim C9. Every anomaly rate and every intensity emitted is to lie in the interval
  from 0 to 1. On the ledger that trades on Prime only the script runs to its end, and
  the marketplace view it writes holds two anomaly rates outside the interval: the NaN
  of the marketplaces without transactions. The three clamped intensities and the
  rates of the flows and of the statistics summary, for the marketplaces that the
  ledger names, are in range, by the lemmas above.
\<close>

theorem empty_marketplace_rate_outside_unit:
  "snd (run_script (\<lambda>_ _. 0) [] prime_only_ledger) = None \<and>
   map_sum id
     (\<lambda>v. map (\<lambda>m. in_unit (ms_anomaly_rate (m_stats m))) (marketplaces v))
     (marketplace_export (\<lambda>_ _. 0) prime_only_ledger)
   = Inr [True, False, False]"
  by code_simp

section \<open>The script as a sequence of views\<close>

lemma run_stages_all:
  "snd (run_stages ss) = None \<Longrightarrow> map Inr (fst (run_stages ss)) = ss"
  by (induction ss rule: run_stages.induct) simp_all

lemma run_stages_prefix:
  "snd (run_stages ss) = Some e
   \<Longrightarrow> \<exists>k<length ss. ss ! k = Inl e \<and> map Inr (fst (run_stages ss)) = take k ss"
proof (induction ss rule: run_stages.induct)
  case 1
  then show ?case by simp
next
  case (2 e' rest)
  then have "(Inl e' # rest) ! 0 = Inl e \<and>
             map Inr (fst (run_stages (Inl e' # rest))) = take 0 (Inl e' # rest)"
    by simp
  then show ?case by (intro exI [of _ 0]) simp
next
  case (3 a rest)
  then obtain k where k: "k < length rest" "rest ! k = Inl e"
    "map Inr (fst (run_stages rest)) = take k rest"
    by auto
  then have "Suc k < length (Inr a # rest) \<and> (Inr a # rest) ! Suc k = Inl e \<and>
    map Inr (fst (run_stages (Inr a # rest))) = take (Suc k) (Inr a # rest)"
    by simp
  then show ?case by (intro exI [of _ "Suc k"])
qed

lemma network_export_total: "\<not> isl (network_export users txns)"
  by (simp add: network_export_def edge_data_closed Let_def)

lemma length_stages: "length (stages rnd users txns) = 10"
  by (simp add: stages_def)

lemma file_names_all:
  assumes "map Inr ws = stages rnd users txns"
  shows "map file_name ws
         = [''network.json'', ''timeline.json'', ''particles.json'', ''geo_flows.json'',
            ''wash_ring.json'', ''marketplaces.json'', ''stats.json'', ''transactions.json'',
            ''anomalies.json'', ''categories.json'']"
proof -
  from assms obtain n p g m t where
    "ws = [Network n, Timeline (timeline_export txns), Particles p, GeoFlows g,
           WashRing (ring_export txns), Marketplaces m, Stats (stats_export txns),
           Transactions t, Anomalies (anomalies_export txns),
           Categories (categories_export txns)]"
    unfolding stages_def
    by (cases "network_export users txns"; cases "particle_export (rnd 0) txns";
        cases "geo_export txns"; cases "marketplace_export rnd txns";
        cases "transactions_export (rnd 4) txns")
       (auto simp: map_eq_Cons_conv)
  then show ?thesis by simp
qed

lemma geo_failure_stops:
  assumes "isl (geo_export txns)" and "\<not> isl (particle_export (rnd 0) txns)"
  shows "map file_name (fst (run_script rnd users txns))
           = [''network.json'', ''timeline.json'', ''particles.json''] \<and>
         snd (run_script rnd users txns) = Some (projl (geo_export txns))"
proof -
  from network_export_total [of users txns] obtain n where
    n: "network_export users txns = Inr n" by (cases "network_export users txns") simp_all
  from assms(2) obtain p where
    p: "particle_export (rnd 0) txns = Inr p" by (cases "particle_export (rnd 0) txns") simp_all
  from assms(1) obtain e where
    e: "geo_export txns = Inl e" by (cases "geo_export txns") simp_all
  show ?thesis
    by (simp add: run_script_def stages_def n p e)
qed

text \<open>
  Claim C3, as the code has it. The views are not isolated: the script computes and
  writes them in a fixed order and nothing catches an exception. A run that ends
  without an exception has written all ten files. A run that ends in an exception has
  written exactly the files of the stages before the one that raised, and none after
  it. In particular, when the geographic flows raise (and the particle sample before
  them does not), the network, the timeline and the particles are written, and the
  wash ring, the marketplaces, the statistics and the dashboard exports are not.
\<close>

theorem script_stops_at_first_failing_view:
  "(snd (run_script rnd users txns) = None
      \<longrightarrow> map file_name (fst (run_script rnd users txns))
          = [''network.json'', ''timeline.json'', ''particles.json'', ''geo_flows.json'',
             ''wash_ring.json'', ''marketplaces.json'', ''stats.json'', ''transactions.json'',
             ''anomalies.json'', ''categories.json'']) \<and>
   (\<forall>e. snd (run_script rnd users txns) = Some e
      \<longrightarrow> (\<exists>k<10. stages rnd users txns ! k = Inl e \<and>
                 map Inr (fst (run_script rnd users txns)) = take k (stages rnd users txns))) \<and>
   (isl (geo_export txns) \<and> \<not> isl (particle_export (rnd 0) txns)
      \<longrightarrow> map file_name (fst (run_script rnd users txns))
            = [''network.json'', ''timeline.json'', ''particles.json''] \<and>
          snd (run_script rnd users txns) = Some (projl (geo_export txns)))"
proof (intro conjI allI impI)
  assume "snd (run_script rnd users txns) = None"
  then have "map Inr (fst (run_script rnd users txns)) = stages rnd users txns"
    unfolding run_script_def by (rule run_stages_all)
  then show "map file_name (fst (run_script rnd users txns))
          = [''network.json'', ''timeline.json'', ''particles.json'', ''geo_flows.json'',
             ''wash_ring.json'', ''marketplaces.json'', ''stats.json'', ''transactions.json'',
             ''anomalies.json'', ''categories.json'']"
    by (rule file_names_all)
next
  fix e assume "snd (run_script rnd users txns) = Some e"
  then have "\<exists>k<length (stages rnd users txns). stages rnd users txns ! k = Inl e \<and>
      map Inr (fst (run_stages (stages rnd users txns))) = take k (stages rnd users txns)"
    unfolding run_script_def by (rule run_stages_prefix)
  then show "\<exists>k<10. stages rnd users txns ! k = Inl e \<and>
                 map Inr (fst (run_script rnd users txns)) = take k (stages rnd users txns)"
    unfolding run_script_def length_stages .
next
  assume a: "isl (geo_export txns) \<and> \<not> isl (particle_export (rnd 0) txns)"
  then have "isl (geo_export txns)" and "\<not> isl (particle_export (rnd 0) txns)"
    by (rule conjunct1, rule conjunct2)
  then have r: "map file_name (fst (run_script rnd users txns))
           = [''network.json'', ''timeline.json'', ''particles.json''] \<and>
         snd (run_script rnd users txns) = Some (projl (geo_export txns))"
    by (rule geo_failure_stops)
  from r show "map file_name (fst (run_script rnd users txns))
            = [''network.json'', ''timeline.json'', ''particles.json'']"
    by (rule conjunct1)
  from r show "snd (run_script rnd users txns) = Some (projl (geo_export txns))"
    by (rule conjunct2)
qed

theorem script_stops_at_first_failing_view_witness:
  "isl (geo_export unknown_region_ledger) \<and>
   \<not> isl (particle_export (zero_draws 0) unknown_region_ledger) \<and>
   map file_name (fst (run_script zero_draws [] unknown_region_ledger))
     = [''network.json'', ''timeline.json'', ''particles.json''] \<and>
   snd (run_script zero_draws [] unknown_region_ledger) = Some (KeyError ''MARS'') \<and>
   snd (run_script zero_draws [] prime_only_ledger) = None \<and>
   map file_name (fst (run_script zero_draws [] prime_only_ledger))
     = [''network.json'', ''timeline.json'', ''particles.json'', ''geo_flows.json'',
        ''wash_ring.json'', ''marketplaces.json'', ''stats.json'', ''transactions.json'',
        ''anomalies.json'', ''categories.json'']"
proof -
  note T1 = script_stops_at_first_failing_view [of zero_draws "[]" unknown_region_ledger]
  note T2 = script_stops_at_first_failing_view [of zero_draws "[]" prime_only_ledger]
  have g: "isl (geo_export unknown_region_ledger)" by code_simp
  have p: "\<not> isl (particle_export (zero_draws 0) unknown_region_ledger)" by code_simp
  have e: "projl (geo_export unknown_region_ledger) = KeyError ''MARS''" by code_simp
  from T1 have "isl (geo_export unknown_region_ledger) \<and>
      \<not> isl (particle_export (zero_draws 0) unknown_region_ledger)
      \<longrightarrow> map file_name (fst (run_script zero_draws [] unknown_region_ledger))
            = [''network.json'', ''timeline.json'', ''particles.json''] \<and>
          snd (run_script zero_draws [] unknown_region_ledger)
            = Some (projl (geo_export unknown_region_ledger))"
    by (elim conjE)
  from this conjI [OF g p] have r: "map file_name (fst (run_script zero_draws [] unknown_region_ledger))
            = [''network.json'', ''timeline.json'', ''particles.json''] \<and>
          snd (run_script zero_draws [] unknown_region_ledger)
            = Some (projl (geo_export unknown_region_ledger))"
    by (rule mp)
  then have r1: "map file_name (fst (run_script zero_draws [] unknown_region_ledger))
            = [''network.json'', ''timeline.json'', ''particles.json'']"
    by (rule conjunct1)
  from r have r2: "snd (run_script zero_draws [] unknown_region_ledger) = Some (KeyError ''MARS'')"
    unfolding e by (rule conjunct2)
  have ok: "snd (run_script zero_draws [] prime_only_ledger) = None" by code_simp
  from T2 have "snd (run_script zero_draws [] prime_only_ledger) = None
      \<longrightarrow> map file_name (fst (run_script zero_draws [] prime_only_ledger))
          = [''network.json'', ''timeline.json'', ''particles.json'', ''geo_flows.json'',
             ''wash_ring.json'', ''marketplaces.json'', ''stats.json'', ''transactions.json'',
             ''anomalies.json'', ''categories.json'']"
    by (elim conjE)
  from this ok have all: "map file_name (fst (run_script zero_draws [] prime_only_ledger))
          = [''network.json'', ''timeline.json'', ''particles.json'', ''geo_flows.json'',
             ''wash_ring.json'', ''marketplaces.json'', ''stats.json'', ''transactions.json'',
             ''anomalies.json'', ''categories.json'']"
    by (rule mp)
  show ?thesis
    by (rule conjI [OF g conjI [OF p conjI [OF r1 conjI [OF r2 conjI [OF ok all]]]]])
qed

text \<open>
  Claim C3, as stated, fails. On the ledger whose only flow names an unknown region the
  geographic flows raise \<^verbatim>\<open>KeyError\<close>, the run ends there, and of the other six views
  the wash ring, the marketplaces and the statistics are not produced.
\<close>

theorem views_not_isolated_counterexample:
  "snd (run_script zero_draws [] unknown_region_ledger) = Some (KeyError ''MARS'') \<and>
   ''wash_ring.json'' \<notin> set (map file_name (fst (run_script zero_draws [] unknown_region_ledger))) \<and>
   ''marketplaces.json'' \<notin> set (map file_name (fst (run_script zero_draws [] unknown_region_ledger))) \<and>
   ''stats.json'' \<notin> set (map file_name (fst (run_script zero_draws [] unknown_region_ledger)))"
  by code_simp

end
